theory Spec2Isabelle
  imports Main "HOL-Library.Word" "HOL-Library.Sublist"
begin

section \<open>C strings, pointers, machine integers and crashes\<close>

text \<open>
  A C string is modelled by the list of its characters before the terminating NUL.
  A pointer into a buffer is an index; \<open>None\<close> is the null pointer. Reading a buffer at
  an index at or beyond its length yields the terminator that \<open>remapFile\<close> stores
  behind the file's bytes (\<open>buffer[size] = '\0'\<close>); a NUL byte inside the file reads as
  a terminator too, as it does for the C code.
\<close>

definition NUL :: char where
  "NUL = CHR 0x00"

definition HT :: char where
  "HT = CHR 0x09"

definition LF :: char where
  "LF = CHR 0x0A"

definition CR :: char where
  "CR = CHR 0x0D"

definition SP :: char where
  "SP = CHR '' ''"

definition DQUOTE :: char where
  "DQUOTE = CHR 0x22"

definition char_at :: "string \<Rightarrow> nat \<Rightarrow> char" where
  "char_at s i = (if i < length s then s ! i else NUL)"

text \<open>
  The type \<open>int\<close> of the programs has 32 bits. The subtraction \<open>pTokenLen - 1\<close> is done
  in it: at the least \<open>int\<close> it wraps around in the compiled code (the C++ standard
  leaves the result open).
\<close>

type_synonym c_int = "32 word"

text \<open>
  The ways the process can die without calling \<open>exit\<close>: a failed \<open>assert\<close>, a read
  through the null pointer, an exception nobody catches, and a write far beyond an
  allocated array. None of them flushes an open stream.
\<close>

datatype crash = AssertionFailed | NullDereference | UncaughtException | BufferOverrun

section \<open>The tokenizer of cmaketricks.cpp\<close>

text \<open>The three scanning loops of \<open>token\<close>, each a recursion on the cursor.\<close>

function skip_blanks :: "string \<Rightarrow> nat \<Rightarrow> nat" where
  "skip_blanks buffer p =
     (if (char_at buffer p = SP \<or> char_at buffer p = HT) \<and> char_at buffer p \<noteq> NUL
      then skip_blanks buffer (p + 1) else p)"
  by pat_completeness auto
termination
  by (relation "measure (\<lambda>(buffer, p). length buffer - p)")
     (auto simp: char_at_def NUL_def split: if_splits)

declare skip_blanks.simps [simp del]

function scan_quoted :: "string \<Rightarrow> nat \<Rightarrow> nat" where
  "scan_quoted buffer p =
     (if char_at buffer p \<noteq> DQUOTE \<and> char_at buffer p \<noteq> NUL
      then scan_quoted buffer (p + 1) else p)"
  by pat_completeness auto
termination
  by (relation "measure (\<lambda>(buffer, p). length buffer - p)")
     (auto simp: char_at_def NUL_def split: if_splits)

declare scan_quoted.simps [simp del]

function scan_bare :: "string \<Rightarrow> nat \<Rightarrow> nat" where
  "scan_bare buffer p =
     (if char_at buffer p \<noteq> SP \<and> char_at buffer p \<noteq> HT \<and> char_at buffer p \<noteq> NUL
         \<and> char_at buffer p \<noteq> CR \<and> char_at buffer p \<noteq> LF
      then scan_bare buffer (p + 1) else p)"
  by pat_completeness auto
termination
  by (relation "measure (\<lambda>(buffer, p). length buffer - p)")
     (auto simp: char_at_def NUL_def split: if_splits)

declare scan_bare.simps [simp del]

text \<open>
  \<open>token(pBuffer, pToken, pTokenLen)\<close>: the result is the returned pointer together
  with the contents of the token buffer after the call; at the end of the buffer the
  function returns the null pointer and leaves the token buffer as it was. The
  \<open>assert\<close> is taken as enabled; it compares \<open>size\<close>, a \<open>ptrdiff_t\<close>, with the
  \<open>int\<close> \<open>pTokenLen - 1\<close>. The variable \<open>offset\<close> is never assigned after its
  initialisation to 0.
\<close>

definition cmaketricks_token ::
  "string \<Rightarrow> nat option \<Rightarrow> string \<Rightarrow> c_int \<Rightarrow> crash + (nat option \<times> string)" where
  "cmaketricks_token buffer pBuffer pToken pTokenLen =
     (case pBuffer of
        None \<Rightarrow> Inl NullDereference
      | Some p0 \<Rightarrow>
          let p = skip_blanks buffer p0 in
          if char_at buffer p = CR \<or> char_at buffer p = LF
          then Inr (Some (p + 1), [char_at buffer p])
          else if char_at buffer p = NUL then Inr (None, pToken)
          else
            let offset = 0;
                start = (if char_at buffer p = DQUOTE then p + 1 else p);
                q = (if char_at buffer p = DQUOTE then scan_quoted buffer (p + 1)
                     else scan_bare buffer p);
                size = q - start
            in if int size < sint (pTokenLen - 1)
               then Inr (Some (q + offset), take size (drop start buffer))
               else Inl AssertionFailed)"

section \<open>The tokenizer of cmdfileremap.cpp\<close>

function cmdfileremap_scan_bare :: "string \<Rightarrow> nat \<Rightarrow> nat" where
  "cmdfileremap_scan_bare buffer p =
     (if char_at buffer p \<noteq> SP \<and> char_at buffer p \<noteq> HT \<and> char_at buffer p \<noteq> NUL
      then cmdfileremap_scan_bare buffer (p + 1) else p)"
  by pat_completeness auto
termination
  by (relation "measure (\<lambda>(buffer, p). length buffer - p)")
     (auto simp: char_at_def NUL_def split: if_splits)

declare cmdfileremap_scan_bare.simps [simp del]

definition cmdfileremap_token ::
  "string \<Rightarrow> nat option \<Rightarrow> string \<Rightarrow> c_int \<Rightarrow> crash + (nat option \<times> string)" where
  "cmdfileremap_token buffer pBuffer pToken pTokenLen =
     (case pBuffer of
        None \<Rightarrow> Inl NullDereference
      | Some p0 \<Rightarrow>
          let p = skip_blanks buffer p0 in
          if char_at buffer p = NUL then Inr (None, pToken)
          else
            let offset = 0;
                start = (if char_at buffer p = DQUOTE then p + 1 else p);
                q = (if char_at buffer p = DQUOTE then scan_quoted buffer (p + 1)
                     else cmdfileremap_scan_bare buffer p);
                size = q - start
            in if int size < sint (pTokenLen - 1)
               then Inr (Some (q + offset), take size (drop start buffer))
               else Inl AssertionFailed)"

section \<open>The regular expressions\<close>

text \<open>
  The four patterns are \<open>std::regex\<close> objects in the default (ECMAScript) grammar and
  are used with \<open>std::regex_match\<close>, which matches the whole token. They are sequences
  of quantified atoms: a character, a bracket expression of ranges, or the dot, which in
  this grammar matches every character but the line terminators.
\<close>

datatype atom = Chr char | Dot | Bracket "(char \<times> char) list"

text \<open>\<open>Rep a lo hi\<close>: between \<open>lo\<close> and \<open>hi\<close> occurrences of \<open>a\<close>, unbounded for \<open>None\<close>.\<close>

datatype piece = Rep atom nat "nat option"

fun in_range :: "char \<Rightarrow> char \<times> char \<Rightarrow> bool" where
  "in_range c (lo, hi) = ((of_char lo :: nat) \<le> of_char c \<and> (of_char c :: nat) \<le> of_char hi)"

fun atom_match :: "atom \<Rightarrow> char \<Rightarrow> bool" where
  "atom_match (Chr x) c = (c = x)"
| "atom_match Dot c = (c \<noteq> LF \<and> c \<noteq> CR)"
| "atom_match (Bracket rs) c = list_ex (in_range c) rs"

fun regex_match :: "string \<Rightarrow> piece list \<Rightarrow> bool" where
  "regex_match s [] = (s = [])"
| "regex_match [] (Rep a lo hi # ps) = (lo = 0 \<and> regex_match [] ps)"
| "regex_match (c # cs) (Rep a lo hi # ps) =
     ((lo = 0 \<and> regex_match (c # cs) ps) \<or>
      (hi \<noteq> Some 0 \<and> atom_match a c \<and>
       regex_match cs (Rep a (lo - 1) (map_option (\<lambda>h. h - 1) hi) # ps)))"

definition one :: "atom \<Rightarrow> piece" where
  "one a = Rep a 1 (Some 1)"

definition dash_or_slash :: atom where
  "dash_or_slash = Bracket [(CHR ''-'', CHR ''-''), (CHR ''/'', CHR ''/'')]"

definition letter :: atom where
  "letter = Bracket [(CHR ''A'', CHR ''Z''), (CHR ''a'', CHR ''z'')]"

text \<open>\<open>"\\/.+\\/.+"\<close>\<close>

definition JUS_PATH :: "piece list" where
  "JUS_PATH = [one (Chr CHR ''/''), Rep Dot 1 None, one (Chr CHR ''/''), Rep Dot 1 None]"

text \<open>\<open>"[-\\/][A-Za-z]\\/.*"\<close>\<close>

definition ONE_PATH :: "piece list" where
  "ONE_PATH = [one dash_or_slash, one letter, one (Chr CHR ''/''), Rep Dot 0 None]"

text \<open>\<open>"[-\\/][A-Za-z]{2}\\/.*"\<close>\<close>

definition DUO_PATH :: "piece list" where
  "DUO_PATH = [one dash_or_slash, Rep letter 2 (Some 2), one (Chr CHR ''/''), Rep Dot 0 None]"

text \<open>\<open>"[-\\/][A-Za-z]{3,}:\\/.*"\<close>\<close>

definition TRI_PATH :: "piece list" where
  "TRI_PATH = [one dash_or_slash, Rep letter 3 None, one (Chr CHR '':''), one (Chr CHR ''/''),
     Rep Dot 0 None]"

section \<open>The environment: Wine, the file system, the process flags\<close>

text \<open>
  What the program takes from outside is a parameter of the model:
  \<^item> \<open>wine_get_dos_file_name\<close>, looked up in KERNEL32 at start; \<open>None\<close> is the null
    pointer it returns when it cannot translate the path;
  \<^item> \<open>WideCharToMultiByte\<close>: the C string left in the destination buffer, given the wide
    path and the capacity passed;
  \<^item> \<open>fopen_w\<close>: whether \<open>fopen(path, "w")\<close> succeeds;
  \<^item> the flag \<open>g_Debug\<close>. The flag \<open>g_Quiet\<close> only suppresses messages; the messages
    on stdout and stderr are not modelled.
\<close>

record env =
  wine_get_dos_file_name :: "string \<Rightarrow> string option"
  WideCharToMultiByte :: "string \<Rightarrow> c_int \<Rightarrow> string"
  fopen_w :: "string \<Rightarrow> bool"
  g_Debug :: bool

text \<open>
  The file system maps a path to the bytes of the file. \<open>fopen(path, "r")\<close> fails on a
  path outside its domain; \<open>fread\<close> delivers all the bytes (the source asserts it);
  \<open>fopen(path, "w")\<close> truncates the file at once.

  An output stream is the text written to it since it was opened. The text reaches the
  file when the stream is flushed: by \<open>fflush\<close> and \<open>fclose\<close> at the end of
  \<open>remapFile\<close>, and by \<open>exit\<close>, which flushes every open stream. Two streams open on
  one path at a time (a forced include that names the command file itself) are beyond
  this model.
\<close>

type_synonym files = "string \<Rightarrow> string option"

definition fputs :: "string \<Rightarrow> string \<Rightarrow> string" where
  "fputs s out = out @ s"

definition fputc :: "char \<Rightarrow> string \<Rightarrow> string" where
  "fputc c out = out @ [c]"

definition fflush :: "string \<Rightarrow> string \<Rightarrow> files \<Rightarrow> files" where
  "fflush file out fs = fs(file \<mapsto> out)"

text \<open>
  How a call ends: it returns; or the process calls \<open>exit(n)\<close>, which leaves the file
  system with every open stream flushed; or the process crashes. A crash flushes
  nothing, and how much of a stream had reached its file before (the stream writes when
  its buffer is full) depends on the C library: of the files after a crash the model
  says nothing.
\<close>

datatype 'a outcome = Returned 'a | Exited nat files | Crashed crash

text \<open>
  \<open>remap(pPath, pLen)\<close> overwrites the C string at \<open>pPath\<close>; the result is the new
  string there, or the code of \<open>exit\<close>.
\<close>

definition remap :: "env \<Rightarrow> string \<Rightarrow> c_int \<Rightarrow> nat + string" where
  "remap env pPath pLen =
     (case wine_get_dos_file_name env pPath of
        None \<Rightarrow> Inl 4
      | Some winPath \<Rightarrow> Inr (WideCharToMultiByte env winPath pLen))"

text \<open>\<open>strchr(s, c)\<close>, as an index into \<open>s\<close>.\<close>

definition strchr :: "string \<Rightarrow> char \<Rightarrow> nat option" where
  "strchr s c = (if c \<in> set s then Some (length (takeWhile (\<lambda>x. x \<noteq> c) s)) else None)"

text \<open>
  \<open>remap(tok + k, pLen)\<close>: the path starts \<open>k\<close> characters into the token buffer and
  is overwritten in place; the result is the whole token buffer after the call.
\<close>

definition remap_at :: "env \<Rightarrow> string \<Rightarrow> nat \<Rightarrow> c_int \<Rightarrow> nat + string" where
  "remap_at env tok k pLen =
     (case remap env (drop k tok) pLen of
        Inl n \<Rightarrow> Inl n
      | Inr path \<Rightarrow> Inr (take k tok @ path))"

text \<open>The format \<open>"\"%s\" "\<close> applied to a string.\<close>

definition quoted :: "string \<Rightarrow> string" where
  "quoted s = [DQUOTE] @ s @ [DQUOTE, SP]"

section \<open>Facts about the scanning loops\<close>

lemma char_at_not_NUL: "char_at buffer p \<noteq> NUL \<Longrightarrow> p < length buffer"
  by (simp add: char_at_def split: if_splits)

lemma skip_blanks_ge: "p \<le> skip_blanks buffer p"
  by (induction buffer p rule: skip_blanks.induct) (subst skip_blanks.simps, auto)

lemma skip_blanks_stops:
  "char_at buffer (skip_blanks buffer p) \<noteq> SP \<and> char_at buffer (skip_blanks buffer p) \<noteq> HT"
  by (induction buffer p rule: skip_blanks.induct)
     (subst (1 2) skip_blanks.simps, auto simp: SP_def HT_def NUL_def)

lemma scan_quoted_ge: "p \<le> scan_quoted buffer p"
  by (induction buffer p rule: scan_quoted.induct) (subst scan_quoted.simps, auto)

lemma scan_bare_ge: "p \<le> scan_bare buffer p"
  by (induction buffer p rule: scan_bare.induct) (subst scan_bare.simps, auto)

lemma cmdfileremap_scan_bare_ge: "p \<le> cmdfileremap_scan_bare buffer p"
  by (induction buffer p rule: cmdfileremap_scan_bare.induct)
     (subst cmdfileremap_scan_bare.simps, auto)

lemma scan_quoted_le: "p \<le> length buffer \<Longrightarrow> scan_quoted buffer p \<le> length buffer"
  by (induction buffer p rule: scan_quoted.induct)
     (subst scan_quoted.simps, auto simp: char_at_def NUL_def split: if_splits)

lemma scan_bare_le: "p \<le> length buffer \<Longrightarrow> scan_bare buffer p \<le> length buffer"
  by (induction buffer p rule: scan_bare.induct)
     (subst scan_bare.simps, auto simp: char_at_def NUL_def split: if_splits)

lemma cmdfileremap_scan_bare_le:
  "p \<le> length buffer \<Longrightarrow> cmdfileremap_scan_bare buffer p \<le> length buffer"
  by (induction buffer p rule: cmdfileremap_scan_bare.induct)
     (subst cmdfileremap_scan_bare.simps, auto simp: char_at_def NUL_def split: if_splits)

text \<open>A call of \<open>token\<close> that returns a pointer has moved the cursor forward.\<close>

lemma cmaketricks_token_advances:
  assumes "cmaketricks_token buffer ptr tok n = Inr (Some q, t)"
  shows "\<exists>p. ptr = Some p \<and> p < q \<and> q \<le> length buffer"
proof -
  from assms obtain p where p: "ptr = Some p"
    by (cases ptr) (auto simp: cmaketricks_token_def)
  let ?s = "skip_blanks buffer p"
  have ge: "p \<le> ?s" by (rule skip_blanks_ge)
  show ?thesis
  proof (cases "char_at buffer ?s = CR \<or> char_at buffer ?s = LF")
    case True
    then have "?s < length buffer"
      by (auto simp: char_at_def CR_def LF_def NUL_def split: if_splits)
    with True assms p ge show ?thesis
      by (auto simp: cmaketricks_token_def Let_def)
  next
    case False
    with assms p have nn: "char_at buffer ?s \<noteq> NUL"
      by (auto simp: cmaketricks_token_def Let_def split: if_splits)
    then have lt: "?s < length buffer" by (rule char_at_not_NUL)
    show ?thesis
    proof (cases "char_at buffer ?s = DQUOTE")
      case True
      with assms p False nn have "q = scan_quoted buffer (?s + 1)"
        by (auto simp: cmaketricks_token_def Let_def split: if_splits)
      with scan_quoted_ge[of "?s + 1" buffer] scan_quoted_le[of "?s + 1" buffer] lt ge p
      show ?thesis by auto
    next
      case dq: False
      with assms p False nn have q: "q = scan_bare buffer ?s"
        by (auto simp: cmaketricks_token_def Let_def split: if_splits)
      have "scan_bare buffer ?s = scan_bare buffer (?s + 1)"
        using False nn skip_blanks_stops[of buffer p]
        by (subst scan_bare.simps) simp
      with q scan_bare_ge[of "?s + 1" buffer] scan_bare_le[of "?s + 1" buffer] lt ge p
      show ?thesis by auto
    qed
  qed
qed

lemma cmdfileremap_token_advances:
  assumes "cmdfileremap_token buffer ptr tok n = Inr (Some q, t)"
  shows "\<exists>p. ptr = Some p \<and> p < q \<and> q \<le> length buffer"
proof -
  from assms obtain p where p: "ptr = Some p"
    by (cases ptr) (auto simp: cmdfileremap_token_def)
  let ?s = "skip_blanks buffer p"
  have ge: "p \<le> ?s" by (rule skip_blanks_ge)
  from assms p have nn: "char_at buffer ?s \<noteq> NUL"
    by (auto simp: cmdfileremap_token_def Let_def split: if_splits)
  then have lt: "?s < length buffer" by (rule char_at_not_NUL)
  show ?thesis
  proof (cases "char_at buffer ?s = DQUOTE")
    case True
    with assms p nn have "q = scan_quoted buffer (?s + 1)"
      by (auto simp: cmdfileremap_token_def Let_def split: if_splits)
    with scan_quoted_ge[of "?s + 1" buffer] scan_quoted_le[of "?s + 1" buffer] lt ge p
    show ?thesis by auto
  next
    case dq: False
    with assms p nn have q: "q = cmdfileremap_scan_bare buffer ?s"
      by (auto simp: cmdfileremap_token_def Let_def split: if_splits)
    have "cmdfileremap_scan_bare buffer ?s = cmdfileremap_scan_bare buffer (?s + 1)"
      using nn skip_blanks_stops[of buffer p]
      by (subst cmdfileremap_scan_bare.simps) simp
    with q cmdfileremap_scan_bare_ge[of "?s + 1" buffer]
      cmdfileremap_scan_bare_le[of "?s + 1" buffer] lt ge p
    show ?thesis by auto
  qed
qed

section \<open>The file pipeline of cmaketricks.cpp\<close>

definition TOKEN_SIZE :: c_int where
  "TOKEN_SIZE = 1024"

datatype Mode = PCH | CMD

text \<open>
  \<open>remapLoop\<close> is the \<open>while\<close> loop of \<open>remapFile\<close>, entered at its condition with
  the cursor \<open>ptr\<close>, the token buffer \<open>tok0\<close>, the path \<open>file\<close> of the output stream
  and the text \<open>out\<close> written to that stream so far; it returns the text of the stream
  and the file system. \<open>remapFile\<close> is the function itself. The token buffer comes
  from \<open>new char[]\<close> and is read only after \<open>token\<close> has written it, so its first
  contents are taken as empty. The \<open>printf\<close> calls under \<open>g_Debug\<close> go to stdout
  and are left out.
\<close>

function remapLoop ::
    "env \<Rightarrow> Mode \<Rightarrow> string \<Rightarrow> nat option \<Rightarrow> string \<Rightarrow> string \<Rightarrow> string \<Rightarrow> files \<Rightarrow>
       (string \<times> files) outcome"
  and remapFile :: "env \<Rightarrow> string \<Rightarrow> Mode \<Rightarrow> files \<Rightarrow> files outcome"
where
  "remapLoop env pMode buffer ptr tok0 file out fs =
     (case cmaketricks_token buffer ptr tok0 TOKEN_SIZE of
        Inl k \<Rightarrow> Crashed k
      | Inr (None, tok) \<Rightarrow> Returned (out, fs)
      | Inr (Some p, tok) \<Rightarrow>
          if char_at tok 0 = SP then remapLoop env pMode buffer (Some p) tok file out fs
          else if char_at tok 0 = CR \<or> char_at tok 0 = LF
          then remapLoop env pMode buffer (Some p) tok file (fputc (char_at tok 0) out) fs
          else
            (case pMode of
               CMD \<Rightarrow>
                 if regex_match tok ONE_PATH then
                   (case remap_at env tok 2 TOKEN_SIZE of
                      Inl n \<Rightarrow> Exited n (fflush file out fs)
                    | Inr tok' \<Rightarrow>
                        remapLoop env pMode buffer (Some p) tok' file
                          (fputs (quoted tok') out) fs)
                 else if regex_match tok DUO_PATH then
                   (case remap_at env tok 3 TOKEN_SIZE of
                      Inl n \<Rightarrow> Exited n (fflush file out fs)
                    | Inr tok' \<Rightarrow>
                        if char_at tok' 1 = CHR ''F'' \<and>
                           (char_at tok' 2 = CHR ''I'' \<or> char_at tok' 2 = CHR ''i'')
                        then
                          (case remapFile env (drop 3 tok') PCH fs of
                             Returned fs' \<Rightarrow>
                               remapLoop env pMode buffer (Some p) tok' file
                                 (fputs (quoted tok') out) fs'
                           | Exited n fs' \<Rightarrow>
                               Exited n (fflush file (fputs (quoted tok') out) fs')
                           | Crashed k \<Rightarrow> Crashed k)
                        else
                          remapLoop env pMode buffer (Some p) tok' file
                            (fputs (quoted tok') out) fs)
                 else if regex_match tok TRI_PATH then
                   (case strchr tok CHR '':'' of
                      None \<Rightarrow> Crashed NullDereference
                    | Some i \<Rightarrow>
                        (case remap_at env tok (i + 1) TOKEN_SIZE of
                           Inl n \<Rightarrow> Exited n (fflush file out fs)
                         | Inr tok' \<Rightarrow>
                             remapLoop env pMode buffer (Some p) tok' file
                               (fputs (quoted tok') out) fs))
                 else if regex_match tok JUS_PATH then
                   (case remap_at env tok 0 TOKEN_SIZE of
                      Inl n \<Rightarrow> Exited n (fflush file out fs)
                    | Inr tok' \<Rightarrow>
                        remapLoop env pMode buffer (Some p) tok' file
                          (fputs (quoted tok') out) fs)
                 else
                   remapLoop env pMode buffer (Some p) tok file (fputs (quoted tok) out) fs
             | PCH \<Rightarrow>
                 if tok = ''#include'' then
                   (case cmaketricks_token buffer (Some p) tok TOKEN_SIZE of
                      Inl k \<Rightarrow> Crashed k
                    | Inr (ptr', tok') \<Rightarrow>
                        (case remap_at env tok' 0 TOKEN_SIZE of
                           Inl n \<Rightarrow> Exited n (fflush file (fputs tok out) fs)
                         | Inr tok'' \<Rightarrow>
                             remapLoop env pMode buffer ptr' tok'' file
                               (fputs ([SP, DQUOTE] @ tok'' @ [DQUOTE]) (fputs tok out)) fs))
                 else
                   remapLoop env pMode buffer (Some p) tok file (fputs (tok @ [SP]) out) fs))"
| "remapFile env pFile pMode fs =
     (case fs pFile of
        None \<Rightarrow> Exited 3 fs
      | Some buffer \<Rightarrow>
          if \<not> fopen_w env (if g_Debug env then pFile @ ''.out'' else pFile)
          then Exited 3 fs
          else
            (case remapLoop env pMode buffer (Some 0) []
                    (if g_Debug env then pFile @ ''.out'' else pFile) []
                    (fs((if g_Debug env then pFile @ ''.out'' else pFile) \<mapsto> [])) of
               Returned (out, fs') \<Rightarrow>
                 Returned (fflush (if g_Debug env then pFile @ ''.out'' else pFile) out fs')
             | Exited n fs' \<Rightarrow> Exited n fs'
             | Crashed k \<Rightarrow> Crashed k))"
  by pat_completeness auto
termination
proof (relation "inv_image (less_than <*lex*> less_than) (\<lambda>x. case x of
       Inl (env, pMode, buffer, ptr, tok0, file, out, fs) \<Rightarrow>
         (if pMode = CMD then 1 else 0,
          case ptr of None \<Rightarrow> 0 | Some p \<Rightarrow> Suc (length buffer) - p)
     | Inr (env, pFile, pMode, fs) \<Rightarrow>
         (if pMode = CMD then 1 else (0::nat),
          case fs pFile of None \<Rightarrow> 0 | Some b \<Rightarrow> length b + 2))", goal_cases)
qed (auto dest!: cmaketricks_token_advances split: option.splits)

declare remapLoop.simps [simp del]

declare remapFile.simps [simp del]

section \<open>The file pipeline of cmdfileremap.cpp\<close>

text \<open>A \<open>%Ns\<close> conversion: the string, padded on the left to the field width \<open>N\<close>.\<close>

definition printf_s_width :: "nat \<Rightarrow> string \<Rightarrow> string" where
  "printf_s_width n s = replicate (n - length s) SP @ s"

text \<open>
  The \<open>for\<close> loop of \<open>remapFile\<close>, entered at a call of \<open>token\<close>. In the branch of
  \<open>TRI_PATH\<close>, \<open>len\<close> is \<open>tok - strchr(tok, ':')\<close>, the negated index of the colon;
  \<open>new char[len + 1]\<close> with a negative size throws, and nothing catches the exception;
  with a size of 0 or 1, \<open>strncpy(x, tok, len - 1)\<close> has a negative count, converted
  to \<open>size_t\<close>.
\<close>

function cmdfileremap_remapLoop ::
  "env \<Rightarrow> string \<Rightarrow> nat option \<Rightarrow> string \<Rightarrow> string \<Rightarrow> string \<Rightarrow> files \<Rightarrow>
     (string \<times> files) outcome"
where
  "cmdfileremap_remapLoop env buffer ptr tok0 file out fs =
     (case cmdfileremap_token buffer ptr tok0 1024 of
        Inl k \<Rightarrow> Crashed k
      | Inr (None, tok) \<Rightarrow> Returned (out, fs)
      | Inr (Some p, tok) \<Rightarrow>
          if regex_match tok ONE_PATH then
            (case remap_at env tok 2 1024 of
               Inl n \<Rightarrow> Exited n (fflush file out fs)
             | Inr tok' \<Rightarrow>
                 cmdfileremap_remapLoop env buffer (Some p) tok' file
                   (fputs ([DQUOTE] @ printf_s_width 2 tok' @ tok' @ [DQUOTE, SP]) out) fs)
          else if regex_match tok DUO_PATH then
            (case remap_at env tok 3 1024 of
               Inl n \<Rightarrow> Exited n (fflush file out fs)
             | Inr tok' \<Rightarrow>
                 cmdfileremap_remapLoop env buffer (Some p) tok' file
                   (fputs ([DQUOTE] @ printf_s_width 3 tok' @ tok' @ [DQUOTE, SP]) out) fs)
          else if regex_match tok TRI_PATH then
            (case strchr tok CHR '':'' of
               None \<Rightarrow> Crashed NullDereference
             | Some i \<Rightarrow>
                 if - int i + 1 < 0 then Crashed UncaughtException
                 else Crashed BufferOverrun)
          else if regex_match tok JUS_PATH then
            (case remap_at env tok 0 1024 of
               Inl n \<Rightarrow> Exited n (fflush file out fs)
             | Inr tok' \<Rightarrow>
                 cmdfileremap_remapLoop env buffer (Some p) tok' file
                   (fputs (quoted tok') out) fs)
          else
            cmdfileremap_remapLoop env buffer (Some p) tok file (fputs (quoted tok) out) fs)"
  by pat_completeness auto
termination
proof (relation "measure (\<lambda>(env, buffer, ptr, tok0, file, out, fs).
         case ptr of None \<Rightarrow> 0 | Some p \<Rightarrow> Suc (length buffer) - p)", goal_cases)
qed (auto dest!: cmdfileremap_token_advances split: option.splits)

declare cmdfileremap_remapLoop.simps [simp del]

definition cmdfileremap_remapFile :: "env \<Rightarrow> string \<Rightarrow> files \<Rightarrow> files outcome" where
  "cmdfileremap_remapFile env pFile fs =
     (case fs pFile of
        None \<Rightarrow> Exited 3 fs
      | Some buffer \<Rightarrow>
          if \<not> fopen_w env pFile then Exited 3 fs
          else
            (case cmdfileremap_remapLoop env buffer (Some 0) [] pFile [] (fs(pFile \<mapsto> [])) of
               Returned (out, fs') \<Rightarrow> Returned (fflush pFile out fs')
             | Exited n fs' \<Rightarrow> Exited n fs'
             | Crashed k \<Rightarrow> Crashed k))"

section \<open>Facts about the patterns\<close>

lemma regex_match_done: "regex_match s (Rep a 0 (Some 0) # ps) = regex_match s ps"
  by (cases s) auto

lemma regex_match_oneD:
  "regex_match s (one a # ps) \<Longrightarrow> \<exists>c cs. s = c # cs \<and> atom_match a c \<and> regex_match cs ps"
  by (cases s) (auto simp: one_def regex_match_done)

lemma regex_match_twoD:
  assumes "regex_match s (Rep a 2 (Some 2) # ps)"
  shows "\<exists>c d cs. s = c # d # cs \<and> atom_match a c \<and> atom_match a d \<and> regex_match cs ps"
proof -
  from assms obtain c cs where s: "s = c # cs" and c: "atom_match a c"
    and cs: "regex_match cs (one a # ps)"
    by (cases s) (auto simp: one_def)
  from regex_match_oneD[OF cs] s c show ?thesis by auto
qed

lemma dash_or_slashD: "atom_match dash_or_slash c \<Longrightarrow> c = CHR ''-'' \<or> c = CHR ''/''"
proof -
  assume "atom_match dash_or_slash c"
  then have "(of_char c :: nat) = of_char CHR ''-'' \<or> (of_char c :: nat) = of_char CHR ''/''"
    by (auto simp: dash_or_slash_def)
  then show ?thesis
    unfolding of_char_eq_iff .
qed

lemma letter_not_slash: "atom_match letter c \<Longrightarrow> c \<noteq> CHR ''/''"
  by (auto simp: letter_def)

lemma letter_not_colon: "atom_match letter c \<Longrightarrow> c \<noteq> CHR '':''"
  by (auto simp: letter_def)

lemma ONE_PATH_D:
  assumes "regex_match tok ONE_PATH"
  shows "\<exists>c l rest. tok = c # l # CHR ''/'' # rest \<and> (c = CHR ''-'' \<or> c = CHR ''/'')"
proof -
  from assms obtain c t1 where 1: "tok = c # t1" "atom_match dash_or_slash c"
    and r1: "regex_match t1 [one letter, one (Chr CHR ''/''), Rep Dot 0 None]"
    unfolding ONE_PATH_def by (blast dest: regex_match_oneD)
  from r1 obtain l t2 where 2: "t1 = l # t2"
    and r2: "regex_match t2 [one (Chr CHR ''/''), Rep Dot 0 None]"
    by (blast dest: regex_match_oneD)
  from r2 obtain s t3 where 3: "t2 = s # t3" "atom_match (Chr CHR ''/'') s"
    by (blast dest: regex_match_oneD)
  with 1 2 dash_or_slashD[of c] show ?thesis by auto
qed

lemma DUO_PATH_D:
  assumes "regex_match tok DUO_PATH"
  shows "\<exists>c l m rest. tok = c # l # m # CHR ''/'' # rest \<and> (c = CHR ''-'' \<or> c = CHR ''/'') \<and>
           atom_match letter l \<and> atom_match letter m"
proof -
  from assms obtain c t1 where 1: "tok = c # t1" "atom_match dash_or_slash c"
    and r1: "regex_match t1 [Rep letter 2 (Some 2), one (Chr CHR ''/''), Rep Dot 0 None]"
    unfolding DUO_PATH_def by (blast dest: regex_match_oneD)
  from r1 obtain l m t2 where 2: "t1 = l # m # t2" "atom_match letter l" "atom_match letter m"
    and r2: "regex_match t2 [one (Chr CHR ''/''), Rep Dot 0 None]"
    by (blast dest: regex_match_twoD)
  from r2 obtain s t3 where 3: "t2 = s # t3" "atom_match (Chr CHR ''/'') s"
    by (blast dest: regex_match_oneD)
  with 1 2 dash_or_slashD[of c] show ?thesis by auto
qed

lemma JUS_PATH_D: "regex_match tok JUS_PATH \<Longrightarrow> \<exists>rest. tok = CHR ''/'' # rest"
  unfolding JUS_PATH_def by (auto dest!: regex_match_oneD)

lemma letters_colon:
  "regex_match s (Rep letter n None # one (Chr CHR '':'') # ps) \<Longrightarrow>
     \<exists>ls rest. s = ls @ CHR '':'' # rest \<and> CHR '':'' \<notin> set ls \<and> n \<le> length ls"
proof (induction s arbitrary: n)
  case Nil
  then show ?case by (simp add: one_def)
next
  case (Cons c cs)
  from Cons.prems consider
      (stop) "n = 0" "regex_match (c # cs) (one (Chr CHR '':'') # ps)"
    | (more) "atom_match letter c"
        "regex_match cs (Rep letter (n - 1) None # one (Chr CHR '':'') # ps)"
    by auto
  then show ?case
  proof cases
    case stop
    from regex_match_oneD[OF stop(2)] have "c = CHR '':''" by auto
    with stop show ?thesis by (intro exI[of _ "[]"] exI[of _ cs]) auto
  next
    case more
    from Cons.IH[OF more(2)] obtain ls rest where
      "cs = ls @ CHR '':'' # rest" "CHR '':'' \<notin> set ls" "n - 1 \<le> length ls" by blast
    with more(1) letter_not_colon[of c] show ?thesis
      by (intro exI[of _ "c # ls"] exI[of _ rest]) auto
  qed
qed

lemma TRI_PATH_D:
  assumes "regex_match tok TRI_PATH"
  shows "\<exists>i c rest. strchr tok CHR '':'' = Some i \<and> 4 \<le> i \<and> i < length tok \<and>
           tok = c # rest \<and> (c = CHR ''-'' \<or> c = CHR ''/'')"
proof -
  from assms obtain c cs where tok: "tok = c # cs" and c: "atom_match dash_or_slash c"
    and cs: "regex_match cs
       (Rep letter 3 None # one (Chr CHR '':'') # [one (Chr CHR ''/''), Rep Dot 0 None])"
    unfolding TRI_PATH_def by (blast dest: regex_match_oneD)
  from letters_colon[OF cs] obtain ls rest where
    ls: "cs = ls @ CHR '':'' # rest" "CHR '':'' \<notin> set ls" "3 \<le> length ls" by blast
  from c have c': "c = CHR ''-'' \<or> c = CHR ''/''" by (rule dash_or_slashD)
  have "takeWhile (\<lambda>x. x \<noteq> CHR '':'') (ls @ CHR '':'' # rest) = ls"
    using ls(2) by (subst takeWhile_append2) auto
  with c' have "takeWhile (\<lambda>x. x \<noteq> CHR '':'') (c # ls @ CHR '':'' # rest) = c # ls"
    by auto
  with tok c' ls show ?thesis by (auto simp: strchr_def)
qed

section \<open>Runs of characters, observations and sample inputs\<close>

text \<open>
  The characters of the buffer from the index \<open>p\<close> up to, and not including, the first
  one that is among \<open>stops\<close>, or up to the end of the buffer.
\<close>

definition run_until :: "char list \<Rightarrow> string \<Rightarrow> nat \<Rightarrow> string" where
  "run_until stops buffer p = takeWhile (\<lambda>c. c \<notin> set stops) (drop p buffer)"

text \<open>
  How a run of the program ended; what a file holds after a run that returned or exited
  (\<open>Some None\<close>: there is no such file; \<open>None\<close>: the run crashed); and the text of
  the output stream of a loop as the loop leaves it: the text it returns, or the text that
  \<open>exit\<close> has flushed into the file of the stream.
\<close>

datatype status = Success | Exit nat | Crash crash

definition status_of :: "'a outcome \<Rightarrow> status" where
  "status_of r = (case r of Returned x \<Rightarrow> Success | Exited n fs \<Rightarrow> Exit n | Crashed k \<Rightarrow> Crash k)"

definition file_after :: "files outcome \<Rightarrow> string \<Rightarrow> string option option" where
  "file_after r path =
     (case r of Returned fs \<Rightarrow> Some (fs path) | Exited n fs \<Rightarrow> Some (fs path) | Crashed k \<Rightarrow> None)"

definition stream_after :: "(string \<times> files) outcome \<Rightarrow> string \<Rightarrow> string option" where
  "stream_after r file =
     (case r of Returned (out, fs) \<Rightarrow> Some out | Exited n fs \<Rightarrow> fs file | Crashed k \<Rightarrow> None)"

text \<open>
  A sample environment: Wine maps every Unix path to drive \<open>Z:\<close>, except
  \<open>/missing/x\<close>, which it cannot translate; the conversion to the narrow string keeps the
  characters; every file can be opened for writing; the debug flag is off.
\<close>

definition example_env :: env where
  "example_env =
     \<lparr>wine_get_dos_file_name = (\<lambda>p. if p = ''/missing/x'' then None else Some (''Z:'' @ p)),
      WideCharToMultiByte = (\<lambda>w n. w),
      fopen_w = (\<lambda>f. True),
      g_Debug = False\<rparr>"

text \<open>
  The offset of the path in a token, as the chain of \<open>regex_match\<close> tests in the
  command-file branch of \<open>remapFile\<close> (cmaketricks.cpp) selects it: the argument of
  \<open>remap\<close> is the token buffer plus this offset. \<open>forced_include tok tok'\<close> is the
  condition under which that branch calls \<open>remapFile\<close> again, \<open>tok\<close> being the token
  as read and \<open>tok'\<close> the token buffer after \<open>remap\<close>.
\<close>

definition path_offset :: "string \<Rightarrow> nat option" where
  "path_offset tok =
     (if regex_match tok ONE_PATH then Some 2
      else if regex_match tok DUO_PATH then Some 3
      else if regex_match tok TRI_PATH then map_option Suc (strchr tok CHR '':'')
      else if regex_match tok JUS_PATH then Some 0
      else None)"

definition forced_include :: "string \<Rightarrow> string \<Rightarrow> bool" where
  "forced_include tok tok' \<longleftrightarrow>
     \<not> regex_match tok ONE_PATH \<and> regex_match tok DUO_PATH \<and> char_at tok' 1 = CHR ''F'' \<and>
     (char_at tok' 2 = CHR ''I'' \<or> char_at tok' 2 = CHR ''i'')"

text \<open>
  Sample buffers: a quoted token followed by a bare one; a quoted token that starts with
  a space, followed by a bare one; a bare token of 1023 characters; an include directive
  with such a token as its target; an include directive whose quoted target starts with
  a space.
\<close>

definition quoted_example :: string where
  "quoted_example = [DQUOTE] @ ''ab'' @ [DQUOTE] @ '' c''"

definition leading_space_example :: string where
  "leading_space_example = [DQUOTE] @ '' /usr/x'' @ [DQUOTE] @ '' -c''"

definition long_token :: string where
  "long_token = replicate 1023 CHR ''a''"

definition include_long_token :: string where
  "include_long_token = ''#include '' @ replicate 1023 CHR ''a''"

definition include_spaced_target :: string where
  "include_spaced_target = ''#include '' @ [DQUOTE] @ '' /usr/a.h'' @ [DQUOTE]"

text \<open>
  More samples: a command file with a line feed behind its second token; the files of a
  run with a forced include, the command file \<open>f\<close> and the header it names, under the
  path that the sample environment translates the name to; a quoted token that starts
  with a space and has no closing quote.
\<close>

definition newline_example :: string where
  "newline_example = ''-c /a/b'' @ [LF] @ ''-O2''"

definition forced_include_files :: files where
  "forced_include_files =
     map_of [(''f'', ''/FI/b.h -c''), (''Z:/b.h'', ''#include /usr/a.h'')]"

definition unterminated_example :: string where
  "unterminated_example = [DQUOTE] @ '' /usr/x''"

section \<open>Facts about the tokenizers and the loops\<close>

lemma run_until_step:
  "p < length buffer \<Longrightarrow> buffer ! p \<notin> set stops \<Longrightarrow>
     run_until stops buffer p = buffer ! p # run_until stops buffer (Suc p)"
  by (simp add: run_until_def Cons_nth_drop_Suc[symmetric])

lemma run_until_stop:
  "NUL \<in> set stops \<Longrightarrow> char_at buffer p \<in> set stops \<Longrightarrow> run_until stops buffer p = []"
  by (cases "p < length buffer")
     (auto simp: run_until_def char_at_def Cons_nth_drop_Suc[symmetric])

lemma take_run_until:
  "take (length (run_until stops buffer p)) (drop p buffer) = run_until stops buffer p"
  unfolding run_until_def by (rule takeWhile_eq_take[symmetric])

lemma scan_quoted_run:
  "scan_quoted buffer p = p + length (run_until [DQUOTE, NUL] buffer p)"
proof (induction buffer p rule: scan_quoted.induct)
  case (1 buffer p)
  show ?case
  proof (cases "char_at buffer p \<noteq> DQUOTE \<and> char_at buffer p \<noteq> NUL")
    case True
    then have "p < length buffer" by (auto dest: char_at_not_NUL)
    with True have "run_until [DQUOTE, NUL] buffer p =
        buffer ! p # run_until [DQUOTE, NUL] buffer (Suc p)"
      by (intro run_until_step) (auto simp: char_at_def)
    with True 1 show ?thesis by (subst scan_quoted.simps) simp
  next
    case False
    then have "run_until [DQUOTE, NUL] buffer p = []"
      by (intro run_until_stop) auto
    with False show ?thesis by (subst scan_quoted.simps) auto
  qed
qed

lemma scan_bare_run:
  "scan_bare buffer p = p + length (run_until [SP, HT, NUL, CR, LF] buffer p)"
proof (induction buffer p rule: scan_bare.induct)
  case (1 buffer p)
  let ?go = "char_at buffer p \<noteq> SP \<and> char_at buffer p \<noteq> HT \<and> char_at buffer p \<noteq> NUL
         \<and> char_at buffer p \<noteq> CR \<and> char_at buffer p \<noteq> LF"
  show ?case
  proof (cases ?go)
    case True
    then have "p < length buffer" by (auto dest: char_at_not_NUL)
    with True have "run_until [SP, HT, NUL, CR, LF] buffer p =
        buffer ! p # run_until [SP, HT, NUL, CR, LF] buffer (Suc p)"
      by (intro run_until_step) (auto simp: char_at_def)
    with True 1 show ?thesis by (subst scan_bare.simps) simp
  next
    case False
    then have "run_until [SP, HT, NUL, CR, LF] buffer p = []"
      by (intro run_until_stop) auto
    with False show ?thesis by (subst scan_bare.simps) auto
  qed
qed

lemma cmdfileremap_scan_bare_run:
  "cmdfileremap_scan_bare buffer p = p + length (run_until [SP, HT, NUL] buffer p)"
proof (induction buffer p rule: cmdfileremap_scan_bare.induct)
  case (1 buffer p)
  let ?go = "char_at buffer p \<noteq> SP \<and> char_at buffer p \<noteq> HT \<and> char_at buffer p \<noteq> NUL"
  show ?case
  proof (cases ?go)
    case True
    then have "p < length buffer" by (auto dest: char_at_not_NUL)
    with True have "run_until [SP, HT, NUL] buffer p =
        buffer ! p # run_until [SP, HT, NUL] buffer (Suc p)"
      by (intro run_until_step) (auto simp: char_at_def)
    with True 1 show ?thesis by (subst cmdfileremap_scan_bare.simps) simp
  next
    case False
    then have "run_until [SP, HT, NUL] buffer p = []"
      by (intro run_until_stop) auto
    with False show ?thesis by (subst cmdfileremap_scan_bare.simps) auto
  qed
qed

text \<open>The result of \<open>token\<close> where it consumes a quoted or a bare run.\<close>

lemma cmaketricks_token_run:
  assumes "s = skip_blanks buffer p0"
    and "char_at buffer s \<noteq> CR" "char_at buffer s \<noteq> LF" "char_at buffer s \<noteq> NUL"
    and "start = (if char_at buffer s = DQUOTE then s + 1 else s)"
    and "run = (if char_at buffer s = DQUOTE then run_until [DQUOTE, NUL] buffer (s + 1)
                else run_until [SP, HT, NUL, CR, LF] buffer s)"
  shows "cmaketricks_token buffer (Some p0) tok cap =
           (if int (length run) < sint (cap - 1) then Inr (Some (start + length run), run)
            else Inl AssertionFailed)"
  using assms
  by (auto simp: cmaketricks_token_def Let_def scan_quoted_run scan_bare_run take_run_until)

lemma cmdfileremap_token_run:
  assumes "s = skip_blanks buffer p0"
    and "char_at buffer s \<noteq> NUL"
    and "start = (if char_at buffer s = DQUOTE then s + 1 else s)"
    and "run = (if char_at buffer s = DQUOTE then run_until [DQUOTE, NUL] buffer (s + 1)
                else run_until [SP, HT, NUL] buffer s)"
  shows "cmdfileremap_token buffer (Some p0) tok cap =
           (if int (length run) < sint (cap - 1) then Inr (Some (start + length run), run)
            else Inl AssertionFailed)"
  using assms
  by (auto simp: cmdfileremap_token_def Let_def scan_quoted_run cmdfileremap_scan_bare_run
        take_run_until)

lemma char_at_Cons_0: "char_at (c # cs) 0 = c"
  by (simp add: char_at_def)

lemma ONE_PATH_first:
  "regex_match tok ONE_PATH \<Longrightarrow> char_at tok 0 \<noteq> SP \<and> char_at tok 0 \<noteq> CR \<and> char_at tok 0 \<noteq> LF"
  by (auto dest!: ONE_PATH_D simp: char_at_Cons_0 SP_def CR_def LF_def)

lemma DUO_PATH_first:
  "regex_match tok DUO_PATH \<Longrightarrow> char_at tok 0 \<noteq> SP \<and> char_at tok 0 \<noteq> CR \<and> char_at tok 0 \<noteq> LF"
  by (auto dest!: DUO_PATH_D simp: char_at_Cons_0 SP_def CR_def LF_def)

lemma TRI_PATH_first:
  "regex_match tok TRI_PATH \<Longrightarrow> char_at tok 0 \<noteq> SP \<and> char_at tok 0 \<noteq> CR \<and> char_at tok 0 \<noteq> LF"
  by (auto dest!: TRI_PATH_D simp: char_at_Cons_0 SP_def CR_def LF_def)

lemma JUS_PATH_first:
  "regex_match tok JUS_PATH \<Longrightarrow> char_at tok 0 \<noteq> SP \<and> char_at tok 0 \<noteq> CR \<and> char_at tok 0 \<noteq> LF"
  by (auto dest!: JUS_PATH_D simp: char_at_Cons_0 SP_def CR_def LF_def)

lemma DUO_PATH_not_ONE:
  assumes "regex_match tok DUO_PATH"
  shows "\<not> regex_match tok ONE_PATH"
proof
  assume "regex_match tok ONE_PATH"
  from DUO_PATH_D[OF assms] ONE_PATH_D[OF this] letter_not_slash show False by auto
qed

lemma remap_at_Some:
  "wine_get_dos_file_name env (drop k tok) = Some winPath \<Longrightarrow>
     remap_at env tok k n = Inr (take k tok @ WideCharToMultiByte env winPath n)"
  by (simp add: remap_at_def remap_def)

lemma remap_at_None:
  "wine_get_dos_file_name env (drop k tok) = None \<Longrightarrow> remap_at env tok k n = Inl 4"
  by (simp add: remap_at_def remap_def)

lemma remap_at_exit: "remap_at env tok k n = Inl m \<Longrightarrow> m = 4"
  by (auto simp: remap_at_def remap_def split: option.splits sum.splits)


lemma remapLoop_token_fatal:
  "cmaketricks_token buffer ptr tok TOKEN_SIZE = Inl k \<Longrightarrow>
     remapLoop env pMode buffer ptr tok file out fs = Crashed k"
  by (subst remapLoop.simps) simp

lemma cmdfileremap_remapLoop_token_fatal:
  "cmdfileremap_token buffer ptr tok 1024 = Inl k \<Longrightarrow>
     cmdfileremap_remapLoop env buffer ptr tok file out fs = Crashed k"
  by (subst cmdfileremap_remapLoop.simps) simp

lemma remapLoop_target_fatal:
  assumes "cmaketricks_token buffer ptr tok TOKEN_SIZE = Inr (Some p, ''#include'')"
    and "cmaketricks_token buffer (Some p) ''#include'' TOKEN_SIZE = Inl k"
  shows "remapLoop env PCH buffer ptr tok file out fs = Crashed k"
  using assms by (subst remapLoop.simps) (simp add: char_at_def SP_def CR_def LF_def)

lemma skip_blanks_stay:
  "char_at buffer p \<noteq> SP \<Longrightarrow> char_at buffer p \<noteq> HT \<Longrightarrow> skip_blanks buffer p = p"
  by (subst skip_blanks.simps) simp

lemma run_until_replicate:
  "a \<notin> set stops \<Longrightarrow> run_until stops (xs @ replicate n a) (length xs) = replicate n a"
  by (simp add: run_until_def)

lemma long_token_start:
  "0 = skip_blanks long_token 0 \<and> char_at long_token 0 \<noteq> NUL"
proof -
  have c: "char_at long_token 0 = CHR ''a''"
    by (simp add: long_token_def char_at_def)
  then show ?thesis
    by (simp add: skip_blanks_stay SP_def HT_def NUL_def)
qed

lemma include_long_token_start:
  "0 = skip_blanks include_long_token 0 \<and> char_at include_long_token 0 \<noteq> NUL"
proof -
  have c: "char_at include_long_token 0 = CHR ''#''"
    by (simp add: include_long_token_def char_at_def)
  then show ?thesis
    by (simp add: skip_blanks_stay SP_def HT_def NUL_def)
qed

lemma long_token_overflows:
  "cmaketricks_token long_token (Some 0) tok TOKEN_SIZE = Inl AssertionFailed \<and>
   cmdfileremap_token long_token (Some 0) tok 1024 = Inl AssertionFailed"
proof -
  have c: "char_at long_token 0 = CHR ''a''"
    by (simp add: long_token_def char_at_def)
  have ne: "char_at long_token 0 \<noteq> CR" "char_at long_token 0 \<noteq> LF"
    "char_at long_token 0 \<noteq> NUL" "char_at long_token 0 \<noteq> DQUOTE"
    by (simp_all add: c CR_def LF_def NUL_def DQUOTE_def)
  have s: "0 = skip_blanks long_token 0"
    by (simp add: skip_blanks_stay c SP_def HT_def)
  have r: "run_until stops long_token 0 = replicate 1023 CHR ''a''"
    if "CHR ''a'' \<notin> set stops" for stops
    using run_until_replicate[of "CHR ''a''" stops "[]" 1023] that by (simp add: long_token_def)
  have r1: "run_until [SP, HT, NUL, CR, LF] long_token 0 = replicate 1023 CHR ''a''"
    by (rule r) (simp add: SP_def HT_def NUL_def CR_def LF_def)
  have r2: "run_until [SP, HT, NUL] long_token 0 = replicate 1023 CHR ''a''"
    by (rule r) (simp add: SP_def HT_def NUL_def)
  show ?thesis
    using cmaketricks_token_run[OF s ne(1,2,3) refl refl, of tok TOKEN_SIZE]
      cmdfileremap_token_run[OF s ne(3) refl refl, of tok 1024]
    by (simp add: ne r1 r2 TOKEN_SIZE_def)
qed

lemma include_long_token_overflows:
  "cmaketricks_token include_long_token (Some 0) [] TOKEN_SIZE = Inr (Some 8, ''#include'') \<and>
   cmaketricks_token include_long_token (Some 8) ''#include'' TOKEN_SIZE = Inl AssertionFailed"
proof -
  have 1: "cmaketricks_token include_long_token (Some 0) [] TOKEN_SIZE = Inr (Some 8, ''#include'')"
  proof -
    have c: "char_at include_long_token 0 = CHR ''#''"
      by (simp add: include_long_token_def char_at_def)
    have ne: "char_at include_long_token 0 \<noteq> CR" "char_at include_long_token 0 \<noteq> LF"
      "char_at include_long_token 0 \<noteq> NUL" "char_at include_long_token 0 \<noteq> DQUOTE"
      by (simp_all add: c CR_def LF_def NUL_def DQUOTE_def)
    have s: "0 = skip_blanks include_long_token 0"
      by (simp add: skip_blanks_stay c SP_def HT_def)
    have r: "run_until [SP, HT, NUL, CR, LF] include_long_token 0 = ''#include''"
      by (simp add: run_until_def include_long_token_def SP_def HT_def NUL_def CR_def LF_def)
    show ?thesis
      using cmaketricks_token_run[OF s ne(1,2,3) refl refl, of "[]" TOKEN_SIZE]
      by (simp add: ne r TOKEN_SIZE_def)
  qed
  have 2: "cmaketricks_token include_long_token (Some 8) ''#include'' TOKEN_SIZE = Inl AssertionFailed"
  proof -
    have c8: "char_at include_long_token 8 = SP"
      by (simp add: include_long_token_def char_at_def SP_def)
    have c: "char_at include_long_token 9 = CHR ''a''"
      by (simp add: include_long_token_def char_at_def nth_append)
    have ne: "char_at include_long_token 9 \<noteq> CR" "char_at include_long_token 9 \<noteq> LF"
      "char_at include_long_token 9 \<noteq> NUL" "char_at include_long_token 9 \<noteq> DQUOTE"
      by (simp_all add: c CR_def LF_def NUL_def DQUOTE_def)
    have "skip_blanks include_long_token 8 = skip_blanks include_long_token 9"
      by (subst skip_blanks.simps) (simp add: c8 SP_def NUL_def)
    then have s: "9 = skip_blanks include_long_token 8"
      by (simp add: skip_blanks_stay c SP_def HT_def)
    have r: "run_until [SP, HT, NUL, CR, LF] include_long_token 9 = replicate 1023 CHR ''a''"
      by (simp add: run_until_def include_long_token_def
            SP_def HT_def NUL_def CR_def LF_def)
    show ?thesis
      using cmaketricks_token_run[OF s ne(1,2,3) refl refl, of "''#include''" TOKEN_SIZE]
      by (simp add: ne r TOKEN_SIZE_def)
  qed
  from 1 2 show ?thesis ..
qed

lemma char_at_run_until_0:
  assumes "char_at buffer s \<notin> set stops" "NUL \<in> set stops"
  shows "char_at (run_until stops buffer s) 0 = char_at buffer s"
proof -
  from assms have "char_at buffer s \<noteq> NUL" by auto
  then have lt: "s < length buffer" by (rule char_at_not_NUL)
  with assms have "run_until stops buffer s = buffer ! s # run_until stops buffer (Suc s)"
    by (intro run_until_step) (auto simp: char_at_def)
  with lt show ?thesis by (simp add: char_at_def)
qed

text \<open>A token that starts with a space comes from the branch for quoted runs.\<close>

lemma leading_space_is_quoted:
  assumes tok: "cmaketricks_token buffer (Some p0) tok0 cap = Inr (Some p, tok)"
    and sp: "char_at tok 0 = SP"
  shows "char_at buffer (skip_blanks buffer p0) = DQUOTE"
proof (rule ccontr)
  let ?s = "skip_blanks buffer p0"
  assume dq: "char_at buffer ?s \<noteq> DQUOTE"
  have blank: "char_at buffer ?s \<noteq> SP" "char_at buffer ?s \<noteq> HT"
    using skip_blanks_stops[of buffer p0] by auto
  show False
  proof (cases "char_at buffer ?s = CR \<or> char_at buffer ?s = LF")
    case True
    with tok have "tok = [char_at buffer ?s]"
      by (auto simp: cmaketricks_token_def Let_def)
    with sp True show False by (auto simp: char_at_def SP_def CR_def LF_def)
  next
    case False
    with tok have nn: "char_at buffer ?s \<noteq> NUL"
      by (auto simp: cmaketricks_token_def Let_def split: if_splits)
    from False have c: "char_at buffer ?s \<noteq> CR" "char_at buffer ?s \<noteq> LF" by auto
    from tok dq have "tok = run_until [SP, HT, NUL, CR, LF] buffer ?s"
      using cmaketricks_token_run[OF refl c nn refl refl, of tok0 cap]
      by (auto split: if_splits)
    with char_at_run_until_0[of buffer ?s "[SP, HT, NUL, CR, LF]"] blank nn c sp
    show False by auto
  qed
qed

lemma path_offset_first:
  "path_offset tok = Some k \<Longrightarrow>
     char_at tok 0 \<noteq> SP \<and> char_at tok 0 \<noteq> CR \<and> char_at tok 0 \<noteq> LF"
  using ONE_PATH_first[of tok] DUO_PATH_first[of tok] TRI_PATH_first[of tok] JUS_PATH_first[of tok]
  by (auto simp: path_offset_def split: if_splits)

text \<open>
  The text of the output stream only grows: whatever a loop returns as the text of its
  stream, or leaves in the file of the stream at \<open>exit\<close>, starts with the text the
  stream had when the loop was entered.
\<close>

lemma stream_after_simps [simp]:
  "stream_after (Returned (out, fs)) file = Some out"
  "stream_after (Exited n fs) file = fs file"
  "stream_after (Crashed k) file = None"
  by (simp_all add: stream_after_def)

lemma remapLoop_stream_grows_aux:
  "(case ptr of None \<Rightarrow> 0 | Some p \<Rightarrow> Suc (length buffer) - p) = m \<Longrightarrow>
   stream_after (remapLoop env pMode buffer ptr tok0 dest out fs) dest = Some content \<Longrightarrow>
   prefix out content"
proof (induction m arbitrary: ptr tok0 out fs rule: less_induct)
  case (less m)
  note prem = less.prems(2)
  show ?case
  proof (cases "cmaketricks_token buffer ptr tok0 TOKEN_SIZE")
    case (Inl k)
    with prem show ?thesis by (subst (asm) remapLoop.simps) simp
  next
    case (Inr res)
    obtain ptr' tok where res: "res = (ptr', tok)" by (cases res)
    show ?thesis
    proof (cases ptr')
      case None
      with prem Inr res show ?thesis by (subst (asm) remapLoop.simps) simp
    next
      case (Some p)
      from cmaketricks_token_advances[of buffer ptr tok0 TOKEN_SIZE p tok] Inr res Some
      obtain p0 where p0: "ptr = Some p0" "p0 < p" "p \<le> length buffer" by auto
      have later: "prefix out content"
        if "stream_after (remapLoop env pMode buffer (Some p) tok' dest out' fs') dest = Some content"
          and "prefix out out'" for tok' out' fs'
      proof -
        have "prefix out' content"
          using less.IH[OF _ refl that(1)] less.prems(1) p0 by auto
        with that(2) show ?thesis by (rule prefix_order.trans)
      qed
      have target: "prefix out content"
        if "stream_after (remapLoop env pMode buffer ptr'' tok' dest out' fs') dest = Some content"
          and "prefix out out'"
          and "cmaketricks_token buffer (Some p) tok TOKEN_SIZE = Inr (ptr'', tok'')"
        for ptr'' tok' tok'' out' fs'
      proof -
        have "(case ptr'' of None \<Rightarrow> 0 | Some q \<Rightarrow> Suc (length buffer) - q) < m"
          using cmaketricks_token_advances[of buffer "Some p" tok TOKEN_SIZE _ tok''] that(3)
            less.prems(1) p0
          by (cases ptr'') auto
        from less.IH[OF this refl that(1)] have "prefix out' content" .
        with that(2) show ?thesis by (rule prefix_order.trans)
      qed
      from prem Inr res Some
      have E: "stream_after
         (if char_at tok 0 = SP then remapLoop env pMode buffer (Some p) tok dest out fs
          else if char_at tok 0 = CR \<or> char_at tok 0 = LF
          then remapLoop env pMode buffer (Some p) tok dest (fputc (char_at tok 0) out) fs
          else
            (case pMode of
               CMD \<Rightarrow>
                 if regex_match tok ONE_PATH then
                   (case remap_at env tok 2 TOKEN_SIZE of
                      Inl n \<Rightarrow> Exited n (fflush dest out fs)
                    | Inr tok' \<Rightarrow>
                        remapLoop env pMode buffer (Some p) tok' dest
                          (fputs (quoted tok') out) fs)
                 else if regex_match tok DUO_PATH then
                   (case remap_at env tok 3 TOKEN_SIZE of
                      Inl n \<Rightarrow> Exited n (fflush dest out fs)
                    | Inr tok' \<Rightarrow>
                        if char_at tok' 1 = CHR ''F'' \<and>
                           (char_at tok' 2 = CHR ''I'' \<or> char_at tok' 2 = CHR ''i'')
                        then
                          (case remapFile env (drop 3 tok') PCH fs of
                             Returned fs' \<Rightarrow>
                               remapLoop env pMode buffer (Some p) tok' dest
                                 (fputs (quoted tok') out) fs'
                           | Exited n fs' \<Rightarrow>
                               Exited n (fflush dest (fputs (quoted tok') out) fs')
                           | Crashed k \<Rightarrow> Crashed k)
                        else
                          remapLoop env pMode buffer (Some p) tok' dest
                            (fputs (quoted tok') out) fs)
                 else if regex_match tok TRI_PATH then
                   (case strchr tok CHR '':'' of
                      None \<Rightarrow> Crashed NullDereference
                    | Some i \<Rightarrow>
                        (case remap_at env tok (i + 1) TOKEN_SIZE of
                           Inl n \<Rightarrow> Exited n (fflush dest out fs)
                         | Inr tok' \<Rightarrow>
                             remapLoop env pMode buffer (Some p) tok' dest
                               (fputs (quoted tok') out) fs))
                 else if regex_match tok JUS_PATH then
                   (case remap_at env tok 0 TOKEN_SIZE of
                      Inl n \<Rightarrow> Exited n (fflush dest out fs)
                    | Inr tok' \<Rightarrow>
                        remapLoop env pMode buffer (Some p) tok' dest
                          (fputs (quoted tok') out) fs)
                 else
                   remapLoop env pMode buffer (Some p) tok dest (fputs (quoted tok) out) fs
             | PCH \<Rightarrow>
                 if tok = ''#include'' then
                   (case cmaketricks_token buffer (Some p) tok TOKEN_SIZE of
                      Inl k \<Rightarrow> Crashed k
                    | Inr (ptr', tok') \<Rightarrow>
                        (case remap_at env tok' 0 TOKEN_SIZE of
                           Inl n \<Rightarrow> Exited n (fflush dest (fputs tok out) fs)
                         | Inr tok'' \<Rightarrow>
                             remapLoop env pMode buffer ptr' tok'' dest
                               (fputs ([SP, DQUOTE] @ tok'' @ [DQUOTE]) (fputs tok out)) fs))
                 else
                   remapLoop env pMode buffer (Some p) tok dest (fputs (tok @ [SP]) out) fs))
         dest = Some content"
        by (subst (asm) remapLoop.simps) simp
      have grow: "prefix out (fputs x out)" "prefix out (fputc c out)"
        "prefix out (fputs y (fputs x out))" for x y c
        by (simp_all add: fputs_def fputc_def)
      show ?thesis
      proof (cases "char_at tok 0 = SP")
        case True
        with E later show ?thesis by auto
      next
        case nsp: False
        show ?thesis
        proof (cases "char_at tok 0 = CR \<or> char_at tok 0 = LF")
          case True
          with E nsp later[OF _ grow(2)] show ?thesis by auto
        next
          case nnl: False
          show ?thesis
          proof (cases pMode)
            case PCH
            with E nsp nnl show ?thesis
              by (auto split: if_splits sum.splits prod.splits simp: fflush_def
                    intro: later[OF _ grow(1)] target[OF _ grow(3)] grow)
          next
            case CMD
            with E nsp nnl show ?thesis
              by (auto split: if_splits sum.splits option.splits outcome.splits simp: fflush_def
                    intro: later[OF _ grow(1)] grow)
          qed
        qed
      qed
    qed
  qed
qed

lemma remapLoop_stream_grows:
  "stream_after (remapLoop env pMode buffer ptr tok0 dest out fs) dest = Some content \<Longrightarrow>
     prefix out content"
  by (rule remapLoop_stream_grows_aux[OF refl])

lemma cmdfileremap_remapLoop_stream_grows_aux:
  "(case ptr of None \<Rightarrow> 0 | Some p \<Rightarrow> Suc (length buffer) - p) = m \<Longrightarrow>
   stream_after (cmdfileremap_remapLoop env buffer ptr tok0 dest out fs) dest = Some content \<Longrightarrow>
   prefix out content"
proof (induction m arbitrary: ptr tok0 out fs rule: less_induct)
  case (less m)
  note prem = less.prems(2)
  show ?case
  proof (cases "cmdfileremap_token buffer ptr tok0 1024")
    case (Inl k)
    with prem show ?thesis by (subst (asm) cmdfileremap_remapLoop.simps) simp
  next
    case (Inr res)
    obtain ptr' tok where res: "res = (ptr', tok)" by (cases res)
    show ?thesis
    proof (cases ptr')
      case None
      with prem Inr res show ?thesis by (subst (asm) cmdfileremap_remapLoop.simps) simp
    next
      case (Some p)
      from cmdfileremap_token_advances[of buffer ptr tok0 1024 p tok] Inr res Some
      obtain p0 where p0: "ptr = Some p0" "p0 < p" "p \<le> length buffer" by auto
      have later: "prefix out content"
        if "stream_after (cmdfileremap_remapLoop env buffer (Some p) tok' dest out' fs') dest =
              Some content"
          and "prefix out out'" for tok' out' fs'
      proof -
        have "prefix out' content"
          using less.IH[OF _ refl that(1)] less.prems(1) p0 by auto
        with that(2) show ?thesis by (rule prefix_order.trans)
      qed
      have grow: "prefix out (fputs x out)" for x
        by (simp add: fputs_def)
      from prem Inr res Some show ?thesis
        by (subst (asm) cmdfileremap_remapLoop.simps)
           (auto split: if_splits sum.splits option.splits simp: fflush_def
              intro: later[OF _ grow])
    qed
  qed
qed

lemma cmdfileremap_remapLoop_stream_grows:
  "stream_after (cmdfileremap_remapLoop env buffer ptr tok0 dest out fs) dest = Some content \<Longrightarrow>
     prefix out content"
  by (rule cmdfileremap_remapLoop_stream_grows_aux[OF refl])

lemma remapLoop_CMD_path:
  assumes tok: "cmaketricks_token buffer ptr tok0 TOKEN_SIZE = Inr (Some p, tok)"
    and k: "path_offset tok = Some k"
  shows "remapLoop env CMD buffer ptr tok0 dest out fs =
           (case remap_at env tok k TOKEN_SIZE of
              Inl n \<Rightarrow> Exited n (fflush dest out fs)
            | Inr tok' \<Rightarrow>
                if forced_include tok tok'
                then (case remapFile env (drop 3 tok') PCH fs of
                        Returned fs' \<Rightarrow>
                          remapLoop env CMD buffer (Some p) tok' dest (fputs (quoted tok') out) fs'
                      | Exited n fs' \<Rightarrow> Exited n (fflush dest (fputs (quoted tok') out) fs')
                      | Crashed c \<Rightarrow> Crashed c)
                else remapLoop env CMD buffer (Some p) tok' dest (fputs (quoted tok') out) fs)"
proof -
  note first = path_offset_first[OF k]
  consider (one) "regex_match tok ONE_PATH" "k = 2"
    | (duo) "\<not> regex_match tok ONE_PATH" "regex_match tok DUO_PATH" "k = 3"
    | (tri) i where "\<not> regex_match tok ONE_PATH" "\<not> regex_match tok DUO_PATH"
        "regex_match tok TRI_PATH" "strchr tok CHR '':'' = Some i" "k = i + 1"
    | (jus) "\<not> regex_match tok ONE_PATH" "\<not> regex_match tok DUO_PATH"
        "\<not> regex_match tok TRI_PATH" "regex_match tok JUS_PATH" "k = 0"
    using k by (auto simp: path_offset_def split: if_splits)
  then show ?thesis
  proof cases
    case one
    with tok first show ?thesis
      by (subst remapLoop.simps) (simp add: forced_include_def split: sum.splits)
  next
    case duo
    with tok first show ?thesis
      by (subst remapLoop.simps) (simp add: forced_include_def split: sum.splits)
  next
    case tri
    with tok first show ?thesis
      by (subst remapLoop.simps) (simp add: forced_include_def split: sum.splits)
  next
    case jus
    with tok first show ?thesis
      by (subst remapLoop.simps) (simp add: forced_include_def split: sum.splits)
  qed
qed

text \<open>
  What the stream holds behind a token of a path class in cmaketricks, whatever follows:
  if the translation fails, the run exits with code 4 and the stream as it was; if it
  succeeds, the token, rewritten from the offset on and quoted, is the next text of the
  stream.
\<close>

lemma remapLoop_CMD_path_exit:
  assumes tok: "cmaketricks_token buffer ptr tok0 TOKEN_SIZE = Inr (Some p, tok)"
    and k: "path_offset tok = Some k"
    and failed: "wine_get_dos_file_name env (drop k tok) = None"
  shows "remapLoop env CMD buffer ptr tok0 dest out fs = Exited 4 (fflush dest out fs)"
  using remapLoop_CMD_path[OF tok k, of env dest out fs] remap_at_None[OF failed, of TOKEN_SIZE]
  by simp

lemma remapLoop_CMD_path_written:
  assumes tok: "cmaketricks_token buffer ptr tok0 TOKEN_SIZE = Inr (Some p, tok)"
    and k: "path_offset tok = Some k"
    and translated: "wine_get_dos_file_name env (drop k tok) = Some winPath"
    and content: "stream_after (remapLoop env CMD buffer ptr tok0 dest out fs) dest = Some content"
  shows "prefix (out @ quoted (take k tok @ WideCharToMultiByte env winPath TOKEN_SIZE)) content"
proof -
  let ?tok' = "take k tok @ WideCharToMultiByte env winPath TOKEN_SIZE"
  let ?out' = "fputs (quoted ?tok') out"
  have r: "remap_at env tok k TOKEN_SIZE = Inr ?tok'"
    using translated by (rule remap_at_Some)
  note step = remapLoop_CMD_path[OF tok k, of env dest out fs, unfolded r sum.case]
  have "prefix ?out' content"
  proof (cases "forced_include tok ?tok'")
    case False
    with step content
    have "stream_after (remapLoop env CMD buffer (Some p) ?tok' dest ?out' fs) dest = Some content"
      by simp
    then show ?thesis by (rule remapLoop_stream_grows)
  next
    case True
    show ?thesis
    proof (cases "remapFile env (drop 3 ?tok') PCH fs")
      case (Returned fs')
      with step content True
      have "stream_after (remapLoop env CMD buffer (Some p) ?tok' dest ?out' fs') dest =
          Some content"
        by simp
      then show ?thesis by (rule remapLoop_stream_grows)
    next
      case (Exited n fs')
      with step content True show ?thesis by (simp add: fflush_def)
    next
      case (Crashed c)
      with step content True show ?thesis by simp
    qed
  qed
  then show ?thesis by (simp add: fputs_def)
qed

lemma regex_match_moreD:
  "regex_match s (Rep a (Suc n) None # ps) \<Longrightarrow>
     \<exists>c cs. s = c # cs \<and> atom_match a c \<and> regex_match cs (Rep a n None # ps)"
  by (cases s) auto

lemma TRI_PATH_letters:
  assumes "regex_match tok TRI_PATH"
  shows "\<exists>c l m n rest. tok = c # l # m # n # rest \<and> atom_match letter l \<and>
           atom_match letter m \<and> atom_match letter n"
proof -
  from assms obtain c t1 where 1: "tok = c # t1"
    and r1: "regex_match t1
       (Rep letter (Suc (Suc (Suc 0))) None # [one (Chr CHR '':''), one (Chr CHR ''/''),
          Rep Dot 0 None])"
    unfolding TRI_PATH_def numeral_3_eq_3 by (blast dest: regex_match_oneD)
  from regex_match_moreD[OF r1] obtain l t2 where 2: "t1 = l # t2" "atom_match letter l"
    and r2: "regex_match t2
       (Rep letter (Suc (Suc 0)) None # [one (Chr CHR '':''), one (Chr CHR ''/''),
          Rep Dot 0 None])"
    by blast
  from regex_match_moreD[OF r2] obtain m t3 where 3: "t2 = m # t3" "atom_match letter m"
    and r3: "regex_match t3
       (Rep letter (Suc 0) None # [one (Chr CHR '':''), one (Chr CHR ''/''), Rep Dot 0 None])"
    by blast
  from regex_match_moreD[OF r3] obtain n t4 where 4: "t3 = n # t4" "atom_match letter n"
    by blast
  from 1 2 3 4 show ?thesis by blast
qed

text \<open>No token matches two of the three patterns with an option prefix.\<close>

lemma prefixed_patterns_exclusive:
  "\<not> (regex_match tok ONE_PATH \<and> regex_match tok DUO_PATH) \<and>
   \<not> (regex_match tok ONE_PATH \<and> regex_match tok TRI_PATH) \<and>
   \<not> (regex_match tok DUO_PATH \<and> regex_match tok TRI_PATH)"
proof (intro conjI notI; elim conjE)
  assume "regex_match tok ONE_PATH" "regex_match tok DUO_PATH"
  with DUO_PATH_not_ONE show False by blast
next
  assume "regex_match tok ONE_PATH" "regex_match tok TRI_PATH"
  from ONE_PATH_D[OF this(1)] TRI_PATH_letters[OF this(2)] letter_not_slash
  show False by auto
next
  assume "regex_match tok DUO_PATH" "regex_match tok TRI_PATH"
  from DUO_PATH_D[OF this(1)] TRI_PATH_letters[OF this(2)] letter_not_slash
  show False by auto
qed

text \<open>
  In cmdfileremap a token of the one-letter or two-letter class is written twice between
  one pair of quotes, and a token of the colon class ends the run.
\<close>

lemma cmdfileremap_prefixed_token_written_twice:
  assumes tok: "cmdfileremap_token buffer ptr tok0 1024 = Inr (Some p, tok)"
    and cls: "regex_match tok ONE_PATH \<and> k = 2 \<or> regex_match tok DUO_PATH \<and> k = 3"
    and translated: "wine_get_dos_file_name env (drop k tok) = Some winPath"
    and tok': "tok' = take k tok @ WideCharToMultiByte env winPath 1024"
  shows "cmdfileremap_remapLoop env buffer ptr tok0 dest out fs =
           cmdfileremap_remapLoop env buffer (Some p) tok' dest
             (fputs ([DQUOTE] @ tok' @ tok' @ [DQUOTE, SP]) out) fs"
proof -
  have r: "remap_at env tok k 1024 = Inr tok'"
    using translated tok' by (simp add: remap_at_Some)
  from cls show ?thesis
  proof (elim disjE conjE)
    assume one: "regex_match tok ONE_PATH" and k: "k = 2"
    from ONE_PATH_D[OF one] have "2 \<le> length tok'"
      unfolding tok' k by auto
    then have "printf_s_width 2 tok' = tok'"
      by (simp add: printf_s_width_def)
    with tok one r k show ?thesis
      by (subst cmdfileremap_remapLoop.simps) simp
  next
    assume duo: "regex_match tok DUO_PATH" and k: "k = 3"
    from DUO_PATH_D[OF duo] have "3 \<le> length tok'"
      unfolding tok' k by auto
    then have "printf_s_width 3 tok' = tok'"
      by (simp add: printf_s_width_def)
    with tok DUO_PATH_not_ONE[OF duo] duo r k show ?thesis
      by (subst cmdfileremap_remapLoop.simps) simp
  qed
qed

lemma cmdfileremap_colon_token_throws:
  assumes tok: "cmdfileremap_token buffer ptr tok0 1024 = Inr (Some p, tok)"
    and tri: "regex_match tok TRI_PATH"
  shows "cmdfileremap_remapLoop env buffer ptr tok0 dest out fs = Crashed UncaughtException"
proof -
  from TRI_PATH_D[OF tri] obtain i where "strchr tok CHR '':'' = Some i" "4 \<le> i"
    by blast
  with tok tri prefixed_patterns_exclusive[of tok] show ?thesis
    by (subst cmdfileremap_remapLoop.simps) auto
qed

lemma cmdfileremap_path_exit:
  assumes tok: "cmdfileremap_token buffer ptr tok0 1024 = Inr (Some p, tok)"
    and cls: "regex_match tok ONE_PATH \<and> k = 2 \<or> regex_match tok DUO_PATH \<and> k = 3 \<or>
              regex_match tok JUS_PATH \<and> \<not> regex_match tok ONE_PATH \<and>
              \<not> regex_match tok DUO_PATH \<and> \<not> regex_match tok TRI_PATH \<and> k = 0"
    and failed: "wine_get_dos_file_name env (drop k tok) = None"
  shows "cmdfileremap_remapLoop env buffer ptr tok0 dest out fs = Exited 4 (fflush dest out fs)"
  using tok cls remap_at_None[OF failed, of 1024] DUO_PATH_not_ONE[of tok]
  by (subst cmdfileremap_remapLoop.simps) auto

lemma cmdfileremap_bare_path_written:
  assumes tok: "cmdfileremap_token buffer ptr tok0 1024 = Inr (Some p, tok)"
    and cls: "regex_match tok JUS_PATH" "\<not> regex_match tok ONE_PATH"
      "\<not> regex_match tok DUO_PATH" "\<not> regex_match tok TRI_PATH"
    and translated: "wine_get_dos_file_name env tok = Some winPath"
    and tok': "tok' = WideCharToMultiByte env winPath 1024"
  shows "cmdfileremap_remapLoop env buffer ptr tok0 dest out fs =
           cmdfileremap_remapLoop env buffer (Some p) tok' dest (fputs (quoted tok') out) fs"
proof -
  have r: "remap_at env tok 0 1024 = Inr tok'"
    using translated tok' remap_at_Some[of env 0 tok winPath 1024] by simp
  with tok cls show ?thesis
    by (subst cmdfileremap_remapLoop.simps) simp
qed

lemma path_offset_class:
  assumes "regex_match tok ONE_PATH \<and> k = 2 \<or>
           regex_match tok DUO_PATH \<and> k = 3 \<or>
           regex_match tok TRI_PATH \<and> map_option Suc (strchr tok CHR '':'') = Some k \<or>
           regex_match tok JUS_PATH \<and> \<not> regex_match tok ONE_PATH \<and>
           \<not> regex_match tok DUO_PATH \<and> \<not> regex_match tok TRI_PATH \<and> k = 0"
  shows "path_offset tok = Some k"
  using assms prefixed_patterns_exclusive[of tok] by (auto simp: path_offset_def)

text \<open>
  In cmaketricks a token of a path class is written once: its first \<open>k\<close> characters
  as they were, the translated path behind them, between double quotes and followed by a
  space.
\<close>

lemma cmaketricks_path_token_written_once:
  assumes tok: "cmaketricks_token buffer ptr tok0 TOKEN_SIZE = Inr (Some p, tok)"
    and k: "path_offset tok = Some k"
    and translated: "wine_get_dos_file_name env (drop k tok) = Some winPath"
    and path: "path = WideCharToMultiByte env winPath TOKEN_SIZE"
    and plain: "\<not> forced_include tok (take k tok @ path)"
  shows "remapLoop env CMD buffer ptr tok0 dest out fs =
           remapLoop env CMD buffer (Some p) (take k tok @ path) dest
             (fputs ([DQUOTE] @ take k tok @ path @ [DQUOTE, SP]) out) fs"
  using remapLoop_CMD_path[OF tok k, of env dest out fs]
    remap_at_Some[OF translated, of TOKEN_SIZE] path plain
  by (simp add: quoted_def)

text \<open>
  In cmaketricks the path of a token of the colon class starts behind the first colon of
  the token, and what stands before it, the colon included, is kept.
\<close>

lemma path_offset_colon:
  assumes "\<not> regex_match tok ONE_PATH" "\<not> regex_match tok DUO_PATH" "regex_match tok TRI_PATH"
  shows "\<exists>i. strchr tok CHR '':'' = Some i \<and> path_offset tok = Some (i + 1) \<and>
             take (i + 1) tok = takeWhile (\<lambda>c. c \<noteq> CHR '':'') tok @ [CHR '':'']"
proof -
  from TRI_PATH_D[OF assms(3)] obtain i where i: "strchr tok CHR '':'' = Some i" "i < length tok"
    by blast
  then have len: "i = length (takeWhile (\<lambda>c. c \<noteq> CHR '':'') tok)" and mem: "CHR '':'' \<in> set tok"
    by (auto simp: strchr_def split: if_splits)
  have "tok ! i = CHR '':''"
    using nth_length_takeWhile[of "\<lambda>c. c \<noteq> CHR '':''" tok] i(2) len by auto
  moreover have "take i tok = takeWhile (\<lambda>c. c \<noteq> CHR '':'') tok"
    unfolding len by (rule takeWhile_eq_take[symmetric])
  ultimately have "take (i + 1) tok = takeWhile (\<lambda>c. c \<noteq> CHR '':'') tok @ [CHR '':'']"
    using i(2) by (simp add: take_Suc_conv_app_nth)
  with i assms show ?thesis by (simp add: path_offset_def)
qed

text \<open>
  A quoted run with its closing quote in the buffer: the cursor returned is the index of
  the closing quote, where the next call finds a double quote after skipping no blank.
\<close>

lemma quoted_token_stops_at_closing_quote:
  assumes s: "s = skip_blanks buffer p0"
    and quote1: "char_at buffer s = DQUOTE"
    and quote2: "char_at buffer (s + 1 + length (run_until [DQUOTE, NUL] buffer (s + 1))) = DQUOTE"
    and tok: "cmaketricks_token buffer (Some p0) tok0 cap = Inr (Some q, tok)"
  shows "tok = run_until [DQUOTE, NUL] buffer (s + 1) \<and> char_at buffer q = DQUOTE \<and>
         skip_blanks buffer q = q"
proof -
  have ne: "char_at buffer s \<noteq> CR" "char_at buffer s \<noteq> LF" "char_at buffer s \<noteq> NUL"
    using quote1 by (simp_all add: DQUOTE_def CR_def LF_def NUL_def)
  from tok cmaketricks_token_run[OF s ne refl refl, of tok0 cap] quote1
  have "tok = run_until [DQUOTE, NUL] buffer (s + 1)"
    and q: "q = s + 1 + length (run_until [DQUOTE, NUL] buffer (s + 1))"
    by (auto split: if_splits)
  moreover from q quote2 have "char_at buffer q = DQUOTE" by simp
  moreover from this have "skip_blanks buffer q = q"
    by (intro skip_blanks_stay) (simp_all add: DQUOTE_def SP_def HT_def)
  ultimately show ?thesis by simp
qed

text \<open>
  The subtraction \<open>pTokenLen - 1\<close> in the type \<open>int\<close>: the number one less, except at
  the least \<open>int\<close>, where it wraps around to the greatest.
\<close>

lemma sint_pred:
  "sint ((cap :: c_int) - 1) = (if cap = - (2 ^ 31) then 2 ^ 31 - 1 else sint cap - 1)"
proof (cases "cap = - (2 ^ 31)")
  case True
  then show ?thesis by simp
next
  case False
  have "sint cap \<noteq> - (2 ^ 31)"
  proof
    assume "sint cap = - (2 ^ 31)"
    then have "word_of_int (sint cap) = (word_of_int (- (2 ^ 31)) :: c_int)" by simp
    then have "cap = - (2 ^ 31)" by simp
    with False show False ..
  qed
  moreover have "- (2 ^ 31) \<le> sint cap" "sint cap < 2 ^ 31"
    using sint_ge[of cap] sint_lt[of cap] by simp_all
  ultimately have "- (2 ^ 31) \<le> sint cap - 1" "sint cap - 1 < 2 ^ 31"
    by simp_all
  then have "signed_take_bit 31 (sint cap - 1) = sint cap - 1"
    by (rule signed_take_bit_int_eq_self)
  with False show ?thesis
    by (simp add: sint_word_diff)
qed

text \<open>
  A predicate that holds on fewer characters stops \<open>takeWhile\<close> no later; the two bare
  runs of the tokenizers are equal exactly if the longer one has no carriage return and
  no line feed.
\<close>

lemma takeWhile_finer_eq:
  assumes "\<forall>x. Q x \<longrightarrow> P x" and "\<forall>x \<in> set (takeWhile P xs). Q x"
  shows "takeWhile Q xs = takeWhile P xs"
  using assms(2)
proof (induction xs)
  case Nil
  show ?case by simp
next
  case (Cons x xs)
  show ?case
  proof (cases "P x")
    case True
    with Cons.prems have "Q x" "\<forall>y \<in> set (takeWhile P xs). Q y" by simp_all
    with Cons.IH True show ?thesis by simp
  next
    case False
    with assms(1) have "\<not> Q x" by blast
    with False show ?thesis by simp
  qed
qed

lemma takeWhile_finer_length:
  assumes "\<forall>x. Q x \<longrightarrow> P x"
  shows "length (takeWhile Q xs) \<le> length (takeWhile P xs)"
proof (induction xs)
  case Nil
  show ?case by simp
next
  case (Cons x xs)
  from assms have "Q x \<longrightarrow> P x" by blast
  with Cons show ?case by simp
qed

lemma bare_runs_equal_iff:
  "run_until [SP, HT, NUL, CR, LF] buffer s = run_until [SP, HT, NUL] buffer s \<longleftrightarrow>
     CR \<notin> set (run_until [SP, HT, NUL] buffer s) \<and> LF \<notin> set (run_until [SP, HT, NUL] buffer s)"
proof
  assume eq: "run_until [SP, HT, NUL, CR, LF] buffer s = run_until [SP, HT, NUL] buffer s"
  have "x \<noteq> CR \<and> x \<noteq> LF" if "x \<in> set (run_until [SP, HT, NUL, CR, LF] buffer s)" for x
    using set_takeWhileD[OF that[unfolded run_until_def]] by simp
  then show "CR \<notin> set (run_until [SP, HT, NUL] buffer s) \<and>
      LF \<notin> set (run_until [SP, HT, NUL] buffer s)"
    unfolding eq by blast
next
  assume a: "CR \<notin> set (run_until [SP, HT, NUL] buffer s) \<and>
      LF \<notin> set (run_until [SP, HT, NUL] buffer s)"
  have "x \<notin> set [SP, HT, NUL, CR, LF]"
    if x: "x \<in> set (takeWhile (\<lambda>c. c \<notin> set [SP, HT, NUL]) (drop s buffer))" for x
  proof -
    from set_takeWhileD[OF x] have "x \<notin> set [SP, HT, NUL]" by simp
    moreover from a x have "x \<noteq> CR" "x \<noteq> LF"
      unfolding run_until_def by blast+
    ultimately show ?thesis by simp
  qed
  then have "\<forall>x \<in> set (takeWhile (\<lambda>c. c \<notin> set [SP, HT, NUL]) (drop s buffer)).
      x \<notin> set [SP, HT, NUL, CR, LF]"
    by blast
  moreover have "\<forall>x. x \<notin> set [SP, HT, NUL, CR, LF] \<longrightarrow> x \<notin> set [SP, HT, NUL]"
    by simp
  ultimately show "run_until [SP, HT, NUL, CR, LF] buffer s = run_until [SP, HT, NUL] buffer s"
    unfolding run_until_def by (rule takeWhile_finer_eq[rotated])
qed

lemma bare_run_shorter:
  "length (run_until [SP, HT, NUL, CR, LF] buffer s) \<le> length (run_until [SP, HT, NUL] buffer s)"
  unfolding run_until_def by (rule takeWhile_finer_length) simp

section \<open>A failing translation (claim C1)\<close>

text \<open>
  C1 as claimed: when the translation fails on a path of a file, the run exits with code
  4 and nothing of the rewritten output is persisted, the destination keeps its prior
  contents. The exit code is as claimed; the rest fails: \<open>remapFile\<close> opens the
  destination for writing, which truncates it, before it reads the first token, and
  \<open>exit\<close> flushes the stream with the output of the tokens read so far. On the command
  file \<open>-c /missing/x -O2\<close> the run exits with code 4 and leaves the file holding the
  output of the first token.
\<close>

theorem partial_output_persisted_counterexample:
  "status_of (remapFile example_env ''f'' CMD (map_of [(''f'', ''-c /missing/x -O2'')])) =
     Exit 4 \<and>
   file_after (remapFile example_env ''f'' CMD (map_of [(''f'', ''-c /missing/x -O2'')])) ''f'' =
     Some (Some (quoted ''-c''))"
  by code_simp

text \<open>
  C1 as amended: \<open>remapFile\<close> truncates the destination when it opens it, before the
  loop starts, and the file holds the text of the stream when the loop has returned;
  when the translation of the path of a token fails, the run exits with code 4 at that
  token and the destination holds what the tokens before it have written: nothing is
  written for the failing token. In the command-file mode this is a token of one of the
  four path classes; in the precompiled-header mode it is the target of an include
  directive, and \<open>#include\<close> itself has been written.
\<close>

theorem translation_failure_exit_4:
  "(fs pFile = Some buffer \<and> dest = (if g_Debug env then pFile @ ''.out'' else pFile) \<and>
    fopen_w env dest \<longrightarrow>
      remapFile env pFile pMode fs =
        (case remapLoop env pMode buffer (Some 0) [] dest [] (fs(dest \<mapsto> [])) of
           Returned (out', fs'') \<Rightarrow> Returned (fflush dest out' fs'')
         | Exited n fs'' \<Rightarrow> Exited n fs''
         | Crashed c \<Rightarrow> Crashed c)) \<and>
   (cmaketricks_token buffer ptr tok0 TOKEN_SIZE = Inr (Some p, tok) \<and>
    path_offset tok = Some k \<and> wine_get_dos_file_name env (drop k tok) = None \<longrightarrow>
      remapLoop env CMD buffer ptr tok0 dest out fs' = Exited 4 (fflush dest out fs')) \<and>
   (cmaketricks_token buffer ptr tok0 TOKEN_SIZE = Inr (Some p, ''#include'') \<and>
    cmaketricks_token buffer (Some p) ''#include'' TOKEN_SIZE = Inr (ptr', tok) \<and>
    wine_get_dos_file_name env tok = None \<longrightarrow>
      remapLoop env PCH buffer ptr tok0 dest out fs' =
        Exited 4 (fflush dest (fputs ''#include'' out) fs'))"
proof (intro conjI impI)
  assume "fs pFile = Some buffer \<and> dest = (if g_Debug env then pFile @ ''.out'' else pFile) \<and>
    fopen_w env dest"
  then show "remapFile env pFile pMode fs =
      (case remapLoop env pMode buffer (Some 0) [] dest [] (fs(dest \<mapsto> [])) of
         Returned (out', fs'') \<Rightarrow> Returned (fflush dest out' fs'')
       | Exited n fs'' \<Rightarrow> Exited n fs''
       | Crashed c \<Rightarrow> Crashed c)"
    by (subst remapFile.simps) auto
next
  assume a: "cmaketricks_token buffer ptr tok0 TOKEN_SIZE = Inr (Some p, tok) \<and>
    path_offset tok = Some k \<and> wine_get_dos_file_name env (drop k tok) = None"
  then show "remapLoop env CMD buffer ptr tok0 dest out fs' = Exited 4 (fflush dest out fs')"
    using remapLoop_CMD_path_exit[of buffer ptr tok0 p tok k env dest out fs'] by simp
next
  assume a: "cmaketricks_token buffer ptr tok0 TOKEN_SIZE = Inr (Some p, ''#include'') \<and>
    cmaketricks_token buffer (Some p) ''#include'' TOKEN_SIZE = Inr (ptr', tok) \<and>
    wine_get_dos_file_name env tok = None"
  then have "remap_at env tok 0 TOKEN_SIZE = Inl 4"
    using remap_at_None[of env 0 tok TOKEN_SIZE] by simp
  with a show "remapLoop env PCH buffer ptr tok0 dest out fs' =
      Exited 4 (fflush dest (fputs ''#include'' out) fs')"
    by (subst remapLoop.simps) (simp add: char_at_def SP_def CR_def LF_def)
qed

theorem translation_failure_exit_4_witness:
  "remapFile example_env ''f'' CMD (map_of [(''f'', ''-c /missing/x -O2'')]) =
     (case remapLoop example_env CMD ''-c /missing/x -O2'' (Some 0) [] ''f'' []
             ((map_of [(''f'', ''-c /missing/x -O2'')])(''f'' \<mapsto> [])) of
        Returned (out', fs'') \<Rightarrow> Returned (fflush ''f'' out' fs'')
      | Exited n fs'' \<Rightarrow> Exited n fs''
      | Crashed c \<Rightarrow> Crashed c) \<and>
   remapLoop example_env CMD ''-c /missing/x -O2'' (Some 2) ''-c'' ''f'' (quoted ''-c'')
       (map_of [(''f'', [])]) =
     Exited 4 (fflush ''f'' (quoted ''-c'') (map_of [(''f'', [])])) \<and>
   remapLoop example_env PCH ''#include /missing/x'' (Some 0) [] ''h'' [] (map_of [(''h'', [])]) =
     Exited 4 (fflush ''h'' (fputs ''#include'' []) (map_of [(''h'', [])]))"
proof (intro conjI)
  have a: "map_of [(''f'', ''-c /missing/x -O2'')] ''f'' = Some ''-c /missing/x -O2''"
    "''f'' = (if g_Debug example_env then ''f'' @ ''.out'' else ''f'')"
    "fopen_w example_env ''f''"
    by code_simp+
  from translation_failure_exit_4[where fs = "map_of [(''f'', ''-c /missing/x -O2'')]"
      and pFile = "''f''" and buffer = "''-c /missing/x -O2''" and dest = "''f''"
      and env = example_env and pMode = CMD] a
  show "remapFile example_env ''f'' CMD (map_of [(''f'', ''-c /missing/x -O2'')]) =
     (case remapLoop example_env CMD ''-c /missing/x -O2'' (Some 0) [] ''f'' []
             ((map_of [(''f'', ''-c /missing/x -O2'')])(''f'' \<mapsto> [])) of
        Returned (out', fs'') \<Rightarrow> Returned (fflush ''f'' out' fs'')
      | Exited n fs'' \<Rightarrow> Exited n fs''
      | Crashed c \<Rightarrow> Crashed c)"
    by blast
next
  have b: "cmaketricks_token ''-c /missing/x -O2'' (Some 2) ''-c'' TOKEN_SIZE =
      Inr (Some 13, ''/missing/x'')"
    "path_offset ''/missing/x'' = Some 0"
    "wine_get_dos_file_name example_env (drop 0 ''/missing/x'') = None"
    by code_simp+
  from translation_failure_exit_4[where buffer = "''-c /missing/x -O2''" and ptr = "Some 2"
      and ?tok0.0 = "''-c''" and p = 13 and tok = "''/missing/x''" and k = 0
      and env = example_env and dest = "''f''" and out = "quoted ''-c''"
      and fs' = "map_of [(''f'', [])]"] b
  show "remapLoop example_env CMD ''-c /missing/x -O2'' (Some 2) ''-c'' ''f'' (quoted ''-c'')
       (map_of [(''f'', [])]) =
     Exited 4 (fflush ''f'' (quoted ''-c'') (map_of [(''f'', [])]))"
    by blast
next
  have c: "cmaketricks_token ''#include /missing/x'' (Some 0) [] TOKEN_SIZE =
      Inr (Some 8, ''#include'')"
    "cmaketricks_token ''#include /missing/x'' (Some 8) ''#include'' TOKEN_SIZE =
      Inr (Some 19, ''/missing/x'')"
    "wine_get_dos_file_name example_env ''/missing/x'' = None"
    by code_simp+
  from translation_failure_exit_4[where buffer = "''#include /missing/x''" and ptr = "Some 0"
      and ?tok0.0 = "[]" and p = 8 and ptr' = "Some 19" and tok = "''/missing/x''"
      and env = example_env and dest = "''h''" and out = "[]" and fs' = "map_of [(''h'', [])]"] c
  show "remapLoop example_env PCH ''#include /missing/x'' (Some 0) [] ''h'' []
       (map_of [(''h'', [])]) =
     Exited 4 (fflush ''h'' (fputs ''#include'' []) (map_of [(''h'', [])]))"
    by blast
qed

section \<open>The token as written to the command file (claim C2)\<close>

text \<open>
  C2: in the command-file mode a token of a path class is written once, its prefix
  unchanged and the rewritten path behind it, in double quotes and with one space after
  it. cmaketricks does so (\<open>cmaketricks_path_token_written_once\<close>,
  \<open>path_offset_colon\<close>). cmdfileremap does not
  (\<open>cmdfileremap_prefixed_token_written_twice\<close>, \<open>cmdfileremap_colon_token_throws\<close>):
  its formats \<open>"%2s%s"\<close> and \<open>"%3s%s"\<close> print the whole token buffer twice,
  a field width being no limit, and in the branch of \<open>TRI_PATH\<close> the length
  \<open>tok - strchr(tok, ':')\<close> is negative, so that \<open>new char[len + 1]\<close> throws before
  anything is translated or written. The runs of both programs on the command files
  \<open>-I/a/b\<close>, \<open>-Fo/a/b\<close> and \<open>-MANIFESTINPUT:/a/b\<close>:
\<close>

theorem cmdfileremap_emits_token_twice:
  "status_of (cmdfileremap_remapFile example_env ''f'' (map_of [(''f'', ''-I/a/b'')])) =
     Success \<and>
   file_after (cmdfileremap_remapFile example_env ''f'' (map_of [(''f'', ''-I/a/b'')])) ''f'' =
     Some (Some ([DQUOTE] @ ''-IZ:/a/b'' @ ''-IZ:/a/b'' @ [DQUOTE, SP])) \<and>
   file_after (cmdfileremap_remapFile example_env ''f'' (map_of [(''f'', ''-Fo/a/b'')])) ''f'' =
     Some (Some ([DQUOTE] @ ''-FoZ:/a/b'' @ ''-FoZ:/a/b'' @ [DQUOTE, SP])) \<and>
   status_of (cmdfileremap_remapFile example_env ''f''
       (map_of [(''f'', ''-MANIFESTINPUT:/a/b'')])) = Crash UncaughtException \<and>
   file_after (remapFile example_env ''f'' CMD (map_of [(''f'', ''-I/a/b'')])) ''f'' =
     Some (Some (quoted ''-IZ:/a/b'')) \<and>
   file_after (remapFile example_env ''f'' CMD (map_of [(''f'', ''-MANIFESTINPUT:/a/b'')])) ''f'' =
     Some (Some (quoted ''-MANIFESTINPUT:Z:/a/b''))"
  by code_simp

section \<open>The cursor behind a quoted token (claim C3)\<close>

text \<open>
  C3: behind a quoted run whose closing quote is in the buffer, \<open>token\<close> is to return
  the cursor behind the closing quote, so that the next call does not read that quote
  again. Both tokenizers return the index of the closing quote itself: they return
  \<open>pBuffer + offset\<close>, and \<open>offset\<close> is 0 on every path
  (\<open>quoted_token_stops_at_closing_quote\<close>). On the buffer \<open>"ab" c\<close> the first call
  yields \<open>ab\<close> and the cursor 3, where the closing quote stands; the next call takes
  that quote for an opening one and yields the token \<open> c\<close>, with its leading space.
\<close>

theorem closing_quote_reread:
  "cmaketricks_token quoted_example (Some 0) [] TOKEN_SIZE = Inr (Some 3, ''ab'') \<and>
   cmdfileremap_token quoted_example (Some 0) [] 1024 = Inr (Some 3, ''ab'') \<and>
   char_at quoted_example 3 = DQUOTE \<and>
   cmaketricks_token quoted_example (Some 3) ''ab'' TOKEN_SIZE = Inr (Some 6, '' c'') \<and>
   cmdfileremap_token quoted_example (Some 3) ''ab'' 1024 = Inr (Some 6, '' c'')"
  by code_simp

section \<open>The two tokenizers compared (claim C4)\<close>

text \<open>
  C4 as claimed: the two functions \<open>token\<close> return the same token and the same cursor
  on every buffer, cursor and capacity. They do not: cmaketricks returns a carriage
  return or a line feed as a token of its own and ends a bare run before one;
  cmdfileremap has neither test. On the buffer of \<open>a\<close>, a line feed and \<open>b\<close>:
\<close>

theorem tokenizers_differ_on_newline:
  "cmaketricks_token [CHR ''a'', LF, CHR ''b''] (Some 0) [] 1024 = Inr (Some 1, ''a'') \<and>
   cmdfileremap_token [CHR ''a'', LF, CHR ''b''] (Some 0) [] 1024 =
     Inr (Some 3, [CHR ''a'', LF, CHR ''b''])"
  by code_simp

text \<open>
  C4 as amended: the results of the two functions are compared at one call, by the
  character \<open>c\<close> behind the blanks and the run of characters from there to the next
  space, tab or end of the buffer, which is the run that cmdfileremap consumes where
  \<open>c\<close> is no double quote. The two functions return the same result exactly
  \<^item> if \<open>c\<close> is a double quote; or
  \<^item> if \<open>c\<close> is a carriage return or a line feed, the run is that one character, and
    the capacity lets a token of one character pass; or
  \<^item> if \<open>c\<close> is another character or the end of the buffer, and the run has no
    carriage return and no line feed, or the assertion fails in both functions, which
    it does if it fails for the shorter run of cmaketricks.

  What stands in the buffer behind the run has no influence.
\<close>

theorem tokenizers_agree_iff:
  assumes s: "s = skip_blanks buffer p"
    and run: "run = run_until [SP, HT, NUL] buffer s"
  shows "cmdfileremap_token buffer (Some p) tok cap = cmaketricks_token buffer (Some p) tok cap \<longleftrightarrow>
           char_at buffer s = DQUOTE \<or>
           (if char_at buffer s = CR \<or> char_at buffer s = LF
            then run = [char_at buffer s] \<and> 1 < sint (cap - 1)
            else CR \<notin> set run \<and> LF \<notin> set run \<or>
                 sint (cap - 1) \<le> int (length (run_until [SP, HT, NUL, CR, LF] buffer s)))"
proof (cases "char_at buffer s = DQUOTE")
  case True
  then show ?thesis
    using s
    by (simp add: cmdfileremap_token_def cmaketricks_token_def Let_def DQUOTE_def NUL_def
          CR_def LF_def)
next
  case dq: False
  show ?thesis
  proof (cases "char_at buffer s = NUL")
    case True
    then have "run = []"
      unfolding run by (intro run_until_stop) auto
    with True s show ?thesis
      by (simp add: cmdfileremap_token_def cmaketricks_token_def Let_def NUL_def CR_def LF_def)
  next
    case nn: False
    have cmd: "cmdfileremap_token buffer (Some p) tok cap =
        (if int (length run) < sint (cap - 1)
         then Inr (Some (s + length run), run) else Inl AssertionFailed)"
      using cmdfileremap_token_run[OF s nn refl refl, of tok cap] dq unfolding run by simp
    show ?thesis
    proof (cases "char_at buffer s = CR \<or> char_at buffer s = LF")
      case True
      then have cmake: "cmaketricks_token buffer (Some p) tok cap =
          Inr (Some (s + 1), [char_at buffer s])"
        using s by (simp add: cmaketricks_token_def Let_def)
      have "(if int (length run) < sint (cap - 1)
             then Inr (Some (s + length run), run) else Inl AssertionFailed) =
            (Inr (Some (s + 1), [char_at buffer s]) :: crash + (nat option \<times> string)) \<longleftrightarrow>
            run = [char_at buffer s] \<and> 1 < sint (cap - 1)"
        by (cases "int (length run) < sint (cap - 1)") auto
      with True dq show ?thesis
        unfolding cmd cmake by simp
    next
      case False
      then have c: "char_at buffer s \<noteq> CR" "char_at buffer s \<noteq> LF" by auto
      define run' where "run' = run_until [SP, HT, NUL, CR, LF] buffer s"
      have le: "length run' \<le> length run"
        unfolding run run'_def by (rule bare_run_shorter)
      have eq: "run' = run \<longleftrightarrow> CR \<notin> set run \<and> LF \<notin> set run"
        unfolding run run'_def by (rule bare_runs_equal_iff)
      have "(if int (length run) < sint (cap - 1)
             then Inr (Some (s + length run), run) else Inl AssertionFailed) =
            (if int (length run') < sint (cap - 1)
             then Inr (Some (s + length run'), run') else (Inl AssertionFailed
               :: crash + (nat option \<times> string))) \<longleftrightarrow>
            run' = run \<or> sint (cap - 1) \<le> int (length run')"
        using le
        by (cases "int (length run) < sint (cap - 1)"; cases "int (length run') < sint (cap - 1)")
           auto
      moreover have "cmaketricks_token buffer (Some p) tok cap =
          (if int (length run') < sint (cap - 1)
           then Inr (Some (s + length run'), run') else Inl AssertionFailed)"
        using cmaketricks_token_run[OF s c nn refl refl, of tok cap] dq unfolding run'_def by simp
      ultimately show ?thesis
        using dq False eq unfolding cmd by (simp add: run'_def)
    qed
  qed
qed

theorem tokenizers_agree_iff_witness:
  "cmdfileremap_token newline_example (Some 0) [] 1024 =
     cmaketricks_token newline_example (Some 0) [] 1024 \<and>
   cmaketricks_token newline_example (Some 0) [] 1024 = Inr (Some 2, ''-c'') \<and>
   LF \<in> set (drop 0 newline_example)"
proof (intro conjI)
  have s: "0 = skip_blanks newline_example 0"
    by code_simp
  have run: "''-c'' = run_until [SP, HT, NUL] newline_example 0"
    by code_simp
  have c: "char_at newline_example 0 \<noteq> DQUOTE"
    "char_at newline_example 0 \<noteq> CR" "char_at newline_example 0 \<noteq> LF"
    "CR \<notin> set ''-c''" "LF \<notin> set ''-c''"
    by code_simp+
  from tokenizers_agree_iff[OF s run, of "[]" 1024] c
  show "cmdfileremap_token newline_example (Some 0) [] 1024 =
      cmaketricks_token newline_example (Some 0) [] 1024"
    by simp
  show "cmaketricks_token newline_example (Some 0) [] 1024 = Inr (Some 2, ''-c'')"
    by code_simp
  show "LF \<in> set (drop 0 newline_example)"
    by code_simp
qed

section \<open>Forced includes (claim C5)\<close>

text \<open>
  C5 as claimed: in the command-file mode of cmaketricks, for every token that matches
  \<open>DUO_PATH\<close> and whose two letters are \<open>F\<close> and \<open>I\<close> or \<open>i\<close>, the path from
  offset 3 on is rewritten, the quoted rewritten token is written, and one pass of
  \<open>remapFile\<close> in the precompiled-header mode runs on the file at the rewritten path.
  Not for every such token: where the translation fails, \<open>remap\<close> calls \<open>exit(4)\<close>
  before anything is written for the token and before \<open>remapFile\<close> is called. On the
  command file \<open>/FI/missing/x\<close> the run exits with code 4, the command file is left
  empty, and the header that the token names is as it was.
\<close>

theorem forced_include_translation_fails:
  "cmaketricks_token ''/FI/missing/x'' (Some 0) [] TOKEN_SIZE = Inr (Some 13, ''/FI/missing/x'') \<and>
   regex_match ''/FI/missing/x'' DUO_PATH \<and>
   status_of (remapFile example_env ''f'' CMD
       (map_of [(''f'', ''/FI/missing/x''), (''/missing/x'', ''#include /usr/a.h'')])) = Exit 4 \<and>
   file_after (remapFile example_env ''f'' CMD
       (map_of [(''f'', ''/FI/missing/x''), (''/missing/x'', ''#include /usr/a.h'')])) ''f'' =
     Some (Some []) \<and>
   file_after (remapFile example_env ''f'' CMD
       (map_of [(''f'', ''/FI/missing/x''), (''/missing/x'', ''#include /usr/a.h'')]))
       ''/missing/x'' =
     Some (Some ''#include /usr/a.h'')"
  by code_simp

text \<open>
  C5 as amended: let the condition of the loop, in the command-file mode of cmaketricks,
  read a token that matches \<open>DUO_PATH\<close> and whose two letters are \<open>F\<close> and \<open>I\<close> or
  \<open>i\<close>. If the translation of the path from offset 3 on fails, the run exits with code
  4 and the stream as it was. If it succeeds, the token with its first three characters
  unchanged and the translated path behind them is written in double quotes with a space
  after it; then \<open>remapFile\<close> runs once, in the mode \<open>PCH\<close>, on the file named by the
  translated path, and the loop goes on behind the token with the file system that this
  run leaves, or the process ends as that run ends. That run exits with code 3 if there
  is no such file or its destination cannot be opened for writing, and otherwise is the
  loop in the mode \<open>PCH\<close> over the contents of the file, writing to the file itself
  (under the debug flag, to the file of that name with \<open>.out\<close> behind it). Whatever
  follows, the text of the stream has the quoted token behind the text it had before.
\<close>

theorem forced_include_recursion:
  assumes tokenised: "cmaketricks_token buffer ptr tok0 TOKEN_SIZE = Inr (Some p, tok)"
    and duo: "regex_match tok DUO_PATH"
    and f: "char_at tok 1 = CHR ''F''"
    and i: "char_at tok 2 = CHR ''I'' \<or> char_at tok 2 = CHR ''i''"
  shows "(wine_get_dos_file_name env (drop 3 tok) = None \<longrightarrow>
            remapLoop env CMD buffer ptr tok0 dest out fs = Exited 4 (fflush dest out fs)) \<and>
         (\<forall>winPath path tok'.
            wine_get_dos_file_name env (drop 3 tok) = Some winPath \<and>
            path = WideCharToMultiByte env winPath TOKEN_SIZE \<and> tok' = take 3 tok @ path \<longrightarrow>
              remapLoop env CMD buffer ptr tok0 dest out fs =
                (case remapFile env path PCH fs of
                   Returned fs' \<Rightarrow>
                     remapLoop env CMD buffer (Some p) tok' dest (out @ quoted tok') fs'
                 | Exited n fs' \<Rightarrow> Exited n (fflush dest (out @ quoted tok') fs')
                 | Crashed c \<Rightarrow> Crashed c) \<and>
              (fs path = None \<longrightarrow>
                 remapLoop env CMD buffer ptr tok0 dest out fs =
                   Exited 3 (fflush dest (out @ quoted tok') fs)) \<and>
              (\<forall>header hdest.
                 fs path = Some header \<and>
                 hdest = (if g_Debug env then path @ ''.out'' else path) \<longrightarrow>
                 (fopen_w env hdest \<longrightarrow>
                    remapFile env path PCH fs =
                      (case remapLoop env PCH header (Some 0) [] hdest [] (fs(hdest \<mapsto> [])) of
                         Returned (hout, fs') \<Rightarrow> Returned (fflush hdest hout fs')
                       | Exited n fs' \<Rightarrow> Exited n fs'
                       | Crashed c \<Rightarrow> Crashed c)) \<and>
                 (\<not> fopen_w env hdest \<longrightarrow>
                    remapLoop env CMD buffer ptr tok0 dest out fs =
                      Exited 3 (fflush dest (out @ quoted tok') fs))) \<and>
              (\<forall>content.
                 stream_after (remapLoop env CMD buffer ptr tok0 dest out fs) dest = Some content \<longrightarrow>
                 prefix (out @ quoted tok') content))"
proof (intro conjI impI allI; (elim conjE)?)
  have k: "path_offset tok = Some 3"
    using duo DUO_PATH_not_ONE[OF duo] by (simp add: path_offset_def)
  {
    assume "wine_get_dos_file_name env (drop 3 tok) = None"
    then show "remapLoop env CMD buffer ptr tok0 dest out fs = Exited 4 (fflush dest out fs)"
      by (rule remapLoop_CMD_path_exit[OF tokenised k])
  }
  fix winPath path tok'
  assume translated: "wine_get_dos_file_name env (drop 3 tok) = Some winPath"
    and path: "path = WideCharToMultiByte env winPath TOKEN_SIZE"
    and tok': "tok' = take 3 tok @ path"
  from DUO_PATH_D[OF duo] obtain c l m rest where tok: "tok = c # l # m # CHR ''/'' # rest"
    by blast
  have fi: "forced_include tok tok'"
    using f i duo DUO_PATH_not_ONE[OF duo] unfolding tok' tok
    by (simp add: forced_include_def char_at_def)
  have d: "drop 3 tok' = path"
    unfolding tok' tok by simp
  have r: "remap_at env tok 3 TOKEN_SIZE = Inr tok'"
    using translated path tok' by (simp add: remap_at_Some)
  show step: "remapLoop env CMD buffer ptr tok0 dest out fs =
      (case remapFile env path PCH fs of
         Returned fs' \<Rightarrow> remapLoop env CMD buffer (Some p) tok' dest (out @ quoted tok') fs'
       | Exited n fs' \<Rightarrow> Exited n (fflush dest (out @ quoted tok') fs')
       | Crashed c \<Rightarrow> Crashed c)"
    using remapLoop_CMD_path[OF tokenised k, of env dest out fs] r fi d
    unfolding fputs_def by simp
  {
    assume "fs path = None"
    then have "remapFile env path PCH fs = Exited 3 fs"
      by (subst remapFile.simps) simp
    with step
    show "remapLoop env CMD buffer ptr tok0 dest out fs =
        Exited 3 (fflush dest (out @ quoted tok') fs)"
      by simp
  }
  {
    fix header hdest
    assume h: "fs path = Some header"
      "hdest = (if g_Debug env then path @ ''.out'' else path)"
    {
      assume "fopen_w env hdest"
      with h(1) show "remapFile env path PCH fs =
          (case remapLoop env PCH header (Some 0) [] hdest [] (fs(hdest \<mapsto> [])) of
             Returned (hout, fs') \<Rightarrow> Returned (fflush hdest hout fs')
           | Exited n fs' \<Rightarrow> Exited n fs'
           | Crashed c \<Rightarrow> Crashed c)"
        unfolding h(2) by (subst remapFile.simps) simp
    }
    {
      assume "\<not> fopen_w env hdest"
      with h have "remapFile env path PCH fs = Exited 3 fs"
        by (subst remapFile.simps) simp
      with step
      show "remapLoop env CMD buffer ptr tok0 dest out fs =
          Exited 3 (fflush dest (out @ quoted tok') fs)"
        by simp
    }
  }
  {
    fix content
    assume "stream_after (remapLoop env CMD buffer ptr tok0 dest out fs) dest = Some content"
    from remapLoop_CMD_path_written[OF tokenised k translated this]
    show "prefix (out @ quoted tok') content"
      using path tok' by simp
  }
qed

theorem forced_include_recursion_witness:
  "status_of (remapFile example_env ''f'' CMD forced_include_files) = Success \<and>
   file_after (remapFile example_env ''f'' CMD forced_include_files) ''f'' =
     Some (Some (quoted ''/FIZ:/b.h'' @ quoted ''-c'')) \<and>
   file_after (remapFile example_env ''f'' CMD forced_include_files) ''Z:/b.h'' =
     Some (Some (''#include'' @ [SP, DQUOTE] @ ''Z:/usr/a.h'' @ [DQUOTE])) \<and>
   remapLoop example_env CMD ''/FI/b.h -c'' (Some 0) [] ''f'' []
       (forced_include_files(''f'' \<mapsto> [])) =
     (case remapFile example_env ''Z:/b.h'' PCH (forced_include_files(''f'' \<mapsto> [])) of
        Returned fs' \<Rightarrow>
          remapLoop example_env CMD ''/FI/b.h -c'' (Some 7) ''/FIZ:/b.h'' ''f''
            ([] @ quoted ''/FIZ:/b.h'') fs'
      | Exited n fs' \<Rightarrow> Exited n (fflush ''f'' ([] @ quoted ''/FIZ:/b.h'') fs')
      | Crashed c \<Rightarrow> Crashed c) \<and>
   remapFile example_env ''Z:/b.h'' PCH (forced_include_files(''f'' \<mapsto> [])) =
     (case remapLoop example_env PCH ''#include /usr/a.h'' (Some 0) [] ''Z:/b.h'' []
             ((forced_include_files(''f'' \<mapsto> []))(''Z:/b.h'' \<mapsto> [])) of
        Returned (hout, fs') \<Rightarrow> Returned (fflush ''Z:/b.h'' hout fs')
      | Exited n fs' \<Rightarrow> Exited n fs'
      | Crashed c \<Rightarrow> Crashed c) \<and>
   remapLoop example_env CMD ''/FI/b.h -c'' (Some 0) [] ''f'' [] (map_of [(''f'', [])]) =
     Exited 3 (fflush ''f'' ([] @ quoted ''/FIZ:/b.h'') (map_of [(''f'', [])])) \<and>
   remapLoop example_env CMD ''/FI/missing/x'' (Some 0) [] ''f'' [] (map_of [(''f'', [])]) =
     Exited 4 (fflush ''f'' [] (map_of [(''f'', [])]))"
proof -
  have run: "status_of (remapFile example_env ''f'' CMD forced_include_files) = Success \<and>
      file_after (remapFile example_env ''f'' CMD forced_include_files) ''f'' =
        Some (Some (quoted ''/FIZ:/b.h'' @ quoted ''-c'')) \<and>
      file_after (remapFile example_env ''f'' CMD forced_include_files) ''Z:/b.h'' =
        Some (Some (''#include'' @ [SP, DQUOTE] @ ''Z:/usr/a.h'' @ [DQUOTE]))"
    by code_simp
  have tokenised: "cmaketricks_token ''/FI/b.h -c'' (Some 0) [] TOKEN_SIZE =
      Inr (Some 7, ''/FI/b.h'')"
    by code_simp
  have shape: "regex_match ''/FI/b.h'' DUO_PATH" "char_at ''/FI/b.h'' 1 = CHR ''F''"
    "char_at ''/FI/b.h'' 2 = CHR ''I'' \<or> char_at ''/FI/b.h'' 2 = CHR ''i''"
    by code_simp+
  have translated: "wine_get_dos_file_name example_env (drop 3 ''/FI/b.h'') = Some ''Z:/b.h''"
    "''Z:/b.h'' = WideCharToMultiByte example_env ''Z:/b.h'' TOKEN_SIZE"
    "''/FIZ:/b.h'' = take 3 ''/FI/b.h'' @ ''Z:/b.h''"
    by code_simp+
  have header: "(forced_include_files(''f'' \<mapsto> [])) ''Z:/b.h'' = Some ''#include /usr/a.h''"
    "''Z:/b.h'' = (if g_Debug example_env then ''Z:/b.h'' @ ''.out'' else ''Z:/b.h'')"
    "fopen_w example_env ''Z:/b.h''"
    by code_simp+
  have absent: "map_of [(''f'', [])] ''Z:/b.h'' = None"
    by code_simp
  note present = forced_include_recursion[OF tokenised shape, where env = example_env
      and dest = "''f''" and out = "[]" and fs = "forced_include_files(''f'' \<mapsto> [])"]
  note missing = forced_include_recursion[OF tokenised shape, where env = example_env
      and dest = "''f''" and out = "[]" and fs = "map_of [(''f'', [])]"]
  have 1: "remapLoop example_env CMD ''/FI/b.h -c'' (Some 0) [] ''f'' []
       (forced_include_files(''f'' \<mapsto> [])) =
     (case remapFile example_env ''Z:/b.h'' PCH (forced_include_files(''f'' \<mapsto> [])) of
        Returned fs' \<Rightarrow>
          remapLoop example_env CMD ''/FI/b.h -c'' (Some 7) ''/FIZ:/b.h'' ''f''
            ([] @ quoted ''/FIZ:/b.h'') fs'
      | Exited n fs' \<Rightarrow> Exited n (fflush ''f'' ([] @ quoted ''/FIZ:/b.h'') fs')
      | Crashed c \<Rightarrow> Crashed c)"
    using present translated by blast
  have 2: "remapFile example_env ''Z:/b.h'' PCH (forced_include_files(''f'' \<mapsto> [])) =
     (case remapLoop example_env PCH ''#include /usr/a.h'' (Some 0) [] ''Z:/b.h'' []
             ((forced_include_files(''f'' \<mapsto> []))(''Z:/b.h'' \<mapsto> [])) of
        Returned (hout, fs') \<Rightarrow> Returned (fflush ''Z:/b.h'' hout fs')
      | Exited n fs' \<Rightarrow> Exited n fs'
      | Crashed c \<Rightarrow> Crashed c)"
    using present translated header by blast
  have 3: "remapLoop example_env CMD ''/FI/b.h -c'' (Some 0) [] ''f'' [] (map_of [(''f'', [])]) =
     Exited 3 (fflush ''f'' ([] @ quoted ''/FIZ:/b.h'') (map_of [(''f'', [])]))"
    using missing translated absent by blast
  have tokenised': "cmaketricks_token ''/FI/missing/x'' (Some 0) [] TOKEN_SIZE =
      Inr (Some 13, ''/FI/missing/x'')"
    by code_simp
  have shape': "regex_match ''/FI/missing/x'' DUO_PATH" "char_at ''/FI/missing/x'' 1 = CHR ''F''"
    "char_at ''/FI/missing/x'' 2 = CHR ''I'' \<or> char_at ''/FI/missing/x'' 2 = CHR ''i''"
    by code_simp+
  have failed: "wine_get_dos_file_name example_env (drop 3 ''/FI/missing/x'') = None"
    by code_simp
  have 4: "remapLoop example_env CMD ''/FI/missing/x'' (Some 0) [] ''f'' [] (map_of [(''f'', [])]) =
     Exited 4 (fflush ''f'' [] (map_of [(''f'', [])]))"
    using forced_include_recursion[OF tokenised' shape', where env = example_env
        and dest = "''f''" and out = "[]" and fs = "map_of [(''f'', [])]"] failed
    by blast
  from run 1 2 3 4 show ?thesis by blast
qed

section \<open>Include directives (claim C6)\<close>

text \<open>
  C6 as claimed: in the precompiled-header mode, for every token \<open>#include\<close> that is
  followed by another token, \<open>#include\<close> is written as it is, the next token is taken as
  the target whatever it looks like, remapped, and written in double quotes with one
  space before the opening quote and no space after the closing one; the target is
  never dropped. It is dropped where its translation fails: \<open>remap\<close> calls \<open>exit(4)\<close>
  when \<open>#include\<close> has been written and the target has not. On the header
  \<open>#include /missing/x -c\<close> the run exits with code 4 and leaves the file holding
  \<open>#include\<close> and nothing else.
\<close>

theorem include_target_lost_on_failure:
  "cmaketricks_token ''#include /missing/x -c'' (Some 0) [] TOKEN_SIZE =
     Inr (Some 8, ''#include'') \<and>
   cmaketricks_token ''#include /missing/x -c'' (Some 8) ''#include'' TOKEN_SIZE =
     Inr (Some 19, ''/missing/x'') \<and>
   status_of (remapFile example_env ''h'' PCH (map_of [(''h'', ''#include /missing/x -c'')])) =
     Exit 4 \<and>
   file_after (remapFile example_env ''h'' PCH (map_of [(''h'', ''#include /missing/x -c'')]))
       ''h'' =
     Some (Some ''#include'')"
  by code_simp

text \<open>
  C6 as amended: let the condition of the loop, in the precompiled-header mode, read the
  token \<open>#include\<close>, and let the call of \<open>token\<close> behind it yield a token, the target.
  The target is handed to the translation as it is, with no test of its first character
  and no pattern matched against it. If the translation fails, the run exits with code 4
  and the stream holds \<open>#include\<close> behind the text it had. If it succeeds, the stream
  holds, behind the text it had, \<open>#include\<close>, one space, and the translated target
  between double quotes, with no space behind the closing quote; the loop goes on
  behind the target, and if the target was the last token this is the text the loop
  returns.
\<close>

theorem include_directive_pairing:
  assumes directive: "cmaketricks_token buffer ptr tok0 TOKEN_SIZE = Inr (Some p, ''#include'')"
    and target: "cmaketricks_token buffer (Some p) ''#include'' TOKEN_SIZE = Inr (Some q, tok)"
  shows "(wine_get_dos_file_name env tok = None \<longrightarrow>
            remapLoop env PCH buffer ptr tok0 dest out fs =
              Exited 4 (fflush dest (out @ ''#include'') fs)) \<and>
         (\<forall>winPath path.
            wine_get_dos_file_name env tok = Some winPath \<and>
            path = WideCharToMultiByte env winPath TOKEN_SIZE \<longrightarrow>
              remapLoop env PCH buffer ptr tok0 dest out fs =
                remapLoop env PCH buffer (Some q) path dest
                  (out @ ''#include'' @ [SP, DQUOTE] @ path @ [DQUOTE]) fs \<and>
              (\<forall>content.
                 stream_after (remapLoop env PCH buffer ptr tok0 dest out fs) dest = Some content \<longrightarrow>
                 prefix (out @ ''#include'' @ [SP, DQUOTE] @ path @ [DQUOTE]) content) \<and>
              (\<forall>t. cmaketricks_token buffer (Some q) path TOKEN_SIZE = Inr (None, t) \<longrightarrow>
                 remapLoop env PCH buffer ptr tok0 dest out fs =
                   Returned (out @ ''#include'' @ [SP, DQUOTE] @ path @ [DQUOTE], fs)))"
proof (intro conjI impI allI; (elim conjE)?)
  {
    assume "wine_get_dos_file_name env tok = None"
    then have "remap_at env tok 0 TOKEN_SIZE = Inl 4"
      using remap_at_None[of env 0 tok TOKEN_SIZE] by simp
    with directive target
    show "remapLoop env PCH buffer ptr tok0 dest out fs =
        Exited 4 (fflush dest (out @ ''#include'') fs)"
      by (subst remapLoop.simps) (simp add: char_at_def SP_def CR_def LF_def fputs_def)
  }
  fix winPath path
  assume translated: "wine_get_dos_file_name env tok = Some winPath"
    and path: "path = WideCharToMultiByte env winPath TOKEN_SIZE"
  have r: "remap_at env tok 0 TOKEN_SIZE = Inr path"
    using translated path remap_at_Some[of env 0 tok winPath TOKEN_SIZE] by simp
  show step: "remapLoop env PCH buffer ptr tok0 dest out fs =
      remapLoop env PCH buffer (Some q) path dest
        (out @ ''#include'' @ [SP, DQUOTE] @ path @ [DQUOTE]) fs"
    using directive target r
    by (subst remapLoop.simps) (simp add: char_at_def SP_def CR_def LF_def fputs_def)
  {
    fix content
    assume "stream_after (remapLoop env PCH buffer ptr tok0 dest out fs) dest = Some content"
    with step show "prefix (out @ ''#include'' @ [SP, DQUOTE] @ path @ [DQUOTE]) content"
      using remapLoop_stream_grows by metis
  }
  {
    fix t
    assume "cmaketricks_token buffer (Some q) path TOKEN_SIZE = Inr (None, t)"
    then have "remapLoop env PCH buffer (Some q) path dest
        (out @ ''#include'' @ [SP, DQUOTE] @ path @ [DQUOTE]) fs =
        Returned (out @ ''#include'' @ [SP, DQUOTE] @ path @ [DQUOTE], fs)"
      by (subst remapLoop.simps) simp
    with step show "remapLoop env PCH buffer ptr tok0 dest out fs =
        Returned (out @ ''#include'' @ [SP, DQUOTE] @ path @ [DQUOTE], fs)"
      by simp
  }
qed

theorem include_directive_pairing_witness:
  "remapLoop example_env PCH ''#include /usr/include/foo.h'' (Some 0) [] ''h'' []
       (map_of [(''h'', [])]) =
     Returned ([] @ ''#include'' @ [SP, DQUOTE] @ ''Z:/usr/include/foo.h'' @ [DQUOTE],
       map_of [(''h'', [])]) \<and>
   file_after (remapFile example_env ''h'' PCH (map_of [(''h'', ''#include /usr/include/foo.h'')]))
       ''h'' =
     Some (Some (''#include'' @ [SP, DQUOTE] @ ''Z:/usr/include/foo.h'' @ [DQUOTE])) \<and>
   remapLoop example_env PCH ''#include /missing/x -c'' (Some 0) [] ''h'' []
       (map_of [(''h'', [])]) =
     Exited 4 (fflush ''h'' ([] @ ''#include'') (map_of [(''h'', [])]))"
proof (intro conjI)
  have directive: "cmaketricks_token ''#include /usr/include/foo.h'' (Some 0) [] TOKEN_SIZE =
      Inr (Some 8, ''#include'')"
    by code_simp
  have target: "cmaketricks_token ''#include /usr/include/foo.h'' (Some 8) ''#include''
      TOKEN_SIZE = Inr (Some 27, ''/usr/include/foo.h'')"
    by code_simp
  have translated: "wine_get_dos_file_name example_env ''/usr/include/foo.h'' =
      Some ''Z:/usr/include/foo.h''"
    "''Z:/usr/include/foo.h'' = WideCharToMultiByte example_env ''Z:/usr/include/foo.h'' TOKEN_SIZE"
    by code_simp+
  have last: "cmaketricks_token ''#include /usr/include/foo.h'' (Some 27) ''Z:/usr/include/foo.h''
      TOKEN_SIZE = Inr (None, ''Z:/usr/include/foo.h'')"
    by code_simp
  from include_directive_pairing[OF directive target, where env = example_env
      and dest = "''h''" and out = "[]" and fs = "map_of [(''h'', [])]"] translated last
  show "remapLoop example_env PCH ''#include /usr/include/foo.h'' (Some 0) [] ''h'' []
       (map_of [(''h'', [])]) =
     Returned ([] @ ''#include'' @ [SP, DQUOTE] @ ''Z:/usr/include/foo.h'' @ [DQUOTE],
       map_of [(''h'', [])])"
    by blast
next
  show "file_after (remapFile example_env ''h'' PCH
        (map_of [(''h'', ''#include /usr/include/foo.h'')])) ''h'' =
     Some (Some (''#include'' @ [SP, DQUOTE] @ ''Z:/usr/include/foo.h'' @ [DQUOTE]))"
    by code_simp
next
  have directive: "cmaketricks_token ''#include /missing/x -c'' (Some 0) [] TOKEN_SIZE =
      Inr (Some 8, ''#include'')"
    by code_simp
  have target: "cmaketricks_token ''#include /missing/x -c'' (Some 8) ''#include''
      TOKEN_SIZE = Inr (Some 19, ''/missing/x'')"
    by code_simp
  have failed: "wine_get_dos_file_name example_env ''/missing/x'' = None"
    by code_simp
  from include_directive_pairing[OF directive target, where env = example_env
      and dest = "''h''" and out = "[]" and fs = "map_of [(''h'', [])]"] failed
  show "remapLoop example_env PCH ''#include /missing/x -c'' (Some 0) [] ''h'' []
       (map_of [(''h'', [])]) =
     Exited 4 (fflush ''h'' ([] @ ''#include'') (map_of [(''h'', [])]))"
    by blast
qed

section \<open>Precedence of the patterns (claim C7)\<close>

text \<open>
  C7. Both programs test the patterns in the order \<open>ONE_PATH\<close>, \<open>DUO_PATH\<close>,
  \<open>TRI_PATH\<close>, \<open>JUS_PATH\<close>, and the first that matches the whole token decides where
  the path starts: at offset 2, at offset 3, behind the first colon, at offset 0. So a
  token that matches one of the first three is handled by that one whether or not it
  matches \<open>JUS_PATH\<close> too, and \<open>JUS_PATH\<close> decides only for a token that matches none
  of them; no token matches two of the first three. The offset shows in the path that
  is handed to the translation and in the text written: in cmaketricks, if the
  translation of the token from the offset on fails the run exits with code 4 and the
  stream as it was, and if it succeeds the stream has, behind the text it had, a double
  quote, the token up to the offset and the translated path, a double quote and a
  space. In cmdfileremap a token that matches \<open>TRI_PATH\<close> ends the run by the
  exception of its branch, whether or not it matches \<open>JUS_PATH\<close>; for the other
  classes the run exits with code 4 if the translation from the offset on fails and
  otherwise the stream has, behind the text it had, a double quote, the token up to
  the offset and the translated path.

  \<open>regex_match\<close> matches the whole token, so \<open>-I/a/b\<close> matches \<open>ONE_PATH\<close> and
  not \<open>JUS_PATH\<close>, which needs a slash in front; \<open>/I/a/b\<close> matches both.
\<close>

theorem first_matching_pattern_wins:
  assumes cls: "regex_match tok ONE_PATH \<and> k = 2 \<or>
                regex_match tok DUO_PATH \<and> k = 3 \<or>
                regex_match tok TRI_PATH \<and> map_option Suc (strchr tok CHR '':'') = Some k \<or>
                regex_match tok JUS_PATH \<and> \<not> regex_match tok ONE_PATH \<and>
                \<not> regex_match tok DUO_PATH \<and> \<not> regex_match tok TRI_PATH \<and> k = 0"
  shows "(cmaketricks_token buffer ptr tok0 TOKEN_SIZE = Inr (Some p, tok) \<longrightarrow>
            (wine_get_dos_file_name env (drop k tok) = None \<longrightarrow>
               remapLoop env CMD buffer ptr tok0 dest out fs = Exited 4 (fflush dest out fs)) \<and>
            (\<forall>winPath content.
               wine_get_dos_file_name env (drop k tok) = Some winPath \<and>
               stream_after (remapLoop env CMD buffer ptr tok0 dest out fs) dest = Some content \<longrightarrow>
               prefix (out @ quoted (take k tok @ WideCharToMultiByte env winPath TOKEN_SIZE))
                 content)) \<and>
         (cmdfileremap_token buffer ptr tok0 1024 = Inr (Some p, tok) \<longrightarrow>
            (regex_match tok TRI_PATH \<longrightarrow>
               cmdfileremap_remapLoop env buffer ptr tok0 dest out fs =
                 Crashed UncaughtException) \<and>
            (\<not> regex_match tok TRI_PATH \<and> wine_get_dos_file_name env (drop k tok) = None \<longrightarrow>
               cmdfileremap_remapLoop env buffer ptr tok0 dest out fs =
                 Exited 4 (fflush dest out fs)) \<and>
            (\<forall>winPath content.
               \<not> regex_match tok TRI_PATH \<and>
               wine_get_dos_file_name env (drop k tok) = Some winPath \<and>
               stream_after (cmdfileremap_remapLoop env buffer ptr tok0 dest out fs) dest =
                 Some content \<longrightarrow>
               prefix (out @ [DQUOTE] @ take k tok @ WideCharToMultiByte env winPath 1024)
                 content)) \<and>
         \<not> (regex_match tok ONE_PATH \<and> regex_match tok DUO_PATH) \<and>
         \<not> (regex_match tok ONE_PATH \<and> regex_match tok TRI_PATH) \<and>
         \<not> (regex_match tok DUO_PATH \<and> regex_match tok TRI_PATH)"
proof -
  have k: "path_offset tok = Some k"
    using cls by (rule path_offset_class)
  have cmake: "(wine_get_dos_file_name env (drop k tok) = None \<longrightarrow>
               remapLoop env CMD buffer ptr tok0 dest out fs = Exited 4 (fflush dest out fs)) \<and>
            (\<forall>winPath content.
               wine_get_dos_file_name env (drop k tok) = Some winPath \<and>
               stream_after (remapLoop env CMD buffer ptr tok0 dest out fs) dest = Some content \<longrightarrow>
               prefix (out @ quoted (take k tok @ WideCharToMultiByte env winPath TOKEN_SIZE))
                 content)"
    if tok: "cmaketricks_token buffer ptr tok0 TOKEN_SIZE = Inr (Some p, tok)"
    using remapLoop_CMD_path_exit[OF tok k] remapLoop_CMD_path_written[OF tok k] by blast
  have cmd: "(regex_match tok TRI_PATH \<longrightarrow>
               cmdfileremap_remapLoop env buffer ptr tok0 dest out fs =
                 Crashed UncaughtException) \<and>
            (\<not> regex_match tok TRI_PATH \<and> wine_get_dos_file_name env (drop k tok) = None \<longrightarrow>
               cmdfileremap_remapLoop env buffer ptr tok0 dest out fs =
                 Exited 4 (fflush dest out fs)) \<and>
            (\<forall>winPath content.
               \<not> regex_match tok TRI_PATH \<and>
               wine_get_dos_file_name env (drop k tok) = Some winPath \<and>
               stream_after (cmdfileremap_remapLoop env buffer ptr tok0 dest out fs) dest =
                 Some content \<longrightarrow>
               prefix (out @ [DQUOTE] @ take k tok @ WideCharToMultiByte env winPath 1024)
                 content)"
    if tok: "cmdfileremap_token buffer ptr tok0 1024 = Inr (Some p, tok)"
  proof (intro conjI impI allI)
    assume "regex_match tok TRI_PATH"
    with tok show "cmdfileremap_remapLoop env buffer ptr tok0 dest out fs =
        Crashed UncaughtException"
      by (rule cmdfileremap_colon_token_throws)
  next
    assume a: "\<not> regex_match tok TRI_PATH \<and> wine_get_dos_file_name env (drop k tok) = None"
    with cls have "regex_match tok ONE_PATH \<and> k = 2 \<or> regex_match tok DUO_PATH \<and> k = 3 \<or>
        regex_match tok JUS_PATH \<and> \<not> regex_match tok ONE_PATH \<and>
        \<not> regex_match tok DUO_PATH \<and> \<not> regex_match tok TRI_PATH \<and> k = 0"
      by blast
    from cmdfileremap_path_exit[OF tok this] a
    show "cmdfileremap_remapLoop env buffer ptr tok0 dest out fs = Exited 4 (fflush dest out fs)"
      by blast
  next
    fix winPath content
    let ?tok' = "take k tok @ WideCharToMultiByte env winPath 1024"
    assume a: "\<not> regex_match tok TRI_PATH \<and>
        wine_get_dos_file_name env (drop k tok) = Some winPath \<and>
        stream_after (cmdfileremap_remapLoop env buffer ptr tok0 dest out fs) dest = Some content"
    with cls consider
        (prefixed) "regex_match tok ONE_PATH \<and> k = 2 \<or> regex_match tok DUO_PATH \<and> k = 3"
      | (bare) "regex_match tok JUS_PATH" "\<not> regex_match tok ONE_PATH"
          "\<not> regex_match tok DUO_PATH" "\<not> regex_match tok TRI_PATH" "k = 0"
      by blast
    then show "prefix (out @ [DQUOTE] @ ?tok') content"
    proof cases
      case prefixed
      from cmdfileremap_prefixed_token_written_twice[OF tok prefixed _ refl, of env winPath dest out fs] a
      have "stream_after (cmdfileremap_remapLoop env buffer (Some p) ?tok' dest
          (fputs ([DQUOTE] @ ?tok' @ ?tok' @ [DQUOTE, SP]) out) fs) dest = Some content"
        by simp
      from cmdfileremap_remapLoop_stream_grows[OF this]
      have "prefix (out @ ([DQUOTE] @ ?tok') @ (?tok' @ [DQUOTE, SP])) content"
        by (simp add: fputs_def)
      then show ?thesis
        using append_prefixD[of "out @ [DQUOTE] @ ?tok'" "?tok' @ [DQUOTE, SP]" content] by simp
    next
      case bare
      from a bare(5) have w: "wine_get_dos_file_name env tok = Some winPath" by simp
      from cmdfileremap_bare_path_written[OF tok bare(1-4) w refl, of dest out fs] a
      have "stream_after (cmdfileremap_remapLoop env buffer (Some p)
          (WideCharToMultiByte env winPath 1024) dest
          (fputs (quoted (WideCharToMultiByte env winPath 1024)) out) fs) dest = Some content"
        by simp
      from cmdfileremap_remapLoop_stream_grows[OF this]
      have "prefix (out @ ([DQUOTE] @ WideCharToMultiByte env winPath 1024) @ [DQUOTE, SP]) content"
        by (simp add: fputs_def quoted_def)
      then show ?thesis
        using append_prefixD[of "out @ [DQUOTE] @ WideCharToMultiByte env winPath 1024"
            "[DQUOTE, SP]" content] bare(5)
        by simp
    qed
  qed
  from cmake cmd prefixed_patterns_exclusive[of tok] show ?thesis by blast
qed

theorem first_matching_pattern_wins_witness:
  "regex_match ''/I/missing/x'' ONE_PATH \<and> regex_match ''/I/missing/x'' JUS_PATH \<and>
   remapLoop example_env CMD ''/I/missing/x'' (Some 0) [] ''f'' [] (map_of [(''f'', [])]) =
     Exited 4 (fflush ''f'' [] (map_of [(''f'', [])])) \<and>
   cmdfileremap_remapLoop example_env ''/I/missing/x'' (Some 0) [] ''f'' [] (map_of [(''f'', [])]) =
     Exited 4 (fflush ''f'' [] (map_of [(''f'', [])])) \<and>
   regex_match ''/Fo/missing/x'' DUO_PATH \<and> regex_match ''/Fo/missing/x'' JUS_PATH \<and>
   remapLoop example_env CMD ''/Fo/missing/x'' (Some 0) [] ''f'' [] (map_of [(''f'', [])]) =
     Exited 4 (fflush ''f'' [] (map_of [(''f'', [])])) \<and>
   regex_match ''/abc:/missing/x'' TRI_PATH \<and> regex_match ''/abc:/missing/x'' JUS_PATH \<and>
   remapLoop example_env CMD ''/abc:/missing/x'' (Some 0) [] ''f'' [] (map_of [(''f'', [])]) =
     Exited 4 (fflush ''f'' [] (map_of [(''f'', [])])) \<and>
   cmdfileremap_remapLoop example_env ''/abc:/missing/x'' (Some 0) [] ''f'' []
       (map_of [(''f'', [])]) =
     Crashed UncaughtException \<and>
   remapLoop example_env CMD ''/missing/x'' (Some 0) [] ''f'' [] (map_of [(''f'', [])]) =
     Exited 4 (fflush ''f'' [] (map_of [(''f'', [])])) \<and>
   regex_match ''-I/a/b'' ONE_PATH \<and>
   stream_after (remapLoop example_env CMD ''-I/a/b'' (Some 0) [] ''f'' [] (map_of [(''f'', [])]))
       ''f'' = Some (quoted ''-IZ:/a/b'') \<and>
   prefix ([] @ quoted (take 2 ''-I/a/b'' @ WideCharToMultiByte example_env ''Z:/a/b'' TOKEN_SIZE))
     (quoted ''-IZ:/a/b'')"
proof -
  have one: "regex_match ''/I/missing/x'' ONE_PATH" "regex_match ''/I/missing/x'' JUS_PATH"
    "cmaketricks_token ''/I/missing/x'' (Some 0) [] TOKEN_SIZE = Inr (Some 12, ''/I/missing/x'')"
    "cmdfileremap_token ''/I/missing/x'' (Some 0) [] 1024 = Inr (Some 12, ''/I/missing/x'')"
    "wine_get_dos_file_name example_env (drop 2 ''/I/missing/x'') = None"
    "\<not> regex_match ''/I/missing/x'' TRI_PATH"
    by code_simp+
  note w1 = first_matching_pattern_wins[where tok = "''/I/missing/x''" and k = 2
      and buffer = "''/I/missing/x''" and ptr = "Some 0" and ?tok0.0 = "[]" and p = 12
      and env = example_env and dest = "''f''" and out = "[]" and fs = "map_of [(''f'', [])]"]
  have 1: "remapLoop example_env CMD ''/I/missing/x'' (Some 0) [] ''f'' [] (map_of [(''f'', [])]) =
      Exited 4 (fflush ''f'' [] (map_of [(''f'', [])]))"
    using w1 one by blast
  have 2: "cmdfileremap_remapLoop example_env ''/I/missing/x'' (Some 0) [] ''f'' []
        (map_of [(''f'', [])]) =
      Exited 4 (fflush ''f'' [] (map_of [(''f'', [])]))"
    using w1 one by blast
  have duo: "regex_match ''/Fo/missing/x'' DUO_PATH" "regex_match ''/Fo/missing/x'' JUS_PATH"
    "cmaketricks_token ''/Fo/missing/x'' (Some 0) [] TOKEN_SIZE = Inr (Some 13, ''/Fo/missing/x'')"
    "wine_get_dos_file_name example_env (drop 3 ''/Fo/missing/x'') = None"
    by code_simp+
  have 3: "remapLoop example_env CMD ''/Fo/missing/x'' (Some 0) [] ''f'' [] (map_of [(''f'', [])]) =
      Exited 4 (fflush ''f'' [] (map_of [(''f'', [])]))"
    using first_matching_pattern_wins[where tok = "''/Fo/missing/x''" and k = 3
      and buffer = "''/Fo/missing/x''" and ptr = "Some 0" and ?tok0.0 = "[]" and p = 13
      and env = example_env and dest = "''f''" and out = "[]" and fs = "map_of [(''f'', [])]"]
      duo
    by blast
  have tri: "regex_match ''/abc:/missing/x'' TRI_PATH" "regex_match ''/abc:/missing/x'' JUS_PATH"
    "map_option Suc (strchr ''/abc:/missing/x'' CHR '':'') = Some 5"
    "cmaketricks_token ''/abc:/missing/x'' (Some 0) [] TOKEN_SIZE =
       Inr (Some 15, ''/abc:/missing/x'')"
    "cmdfileremap_token ''/abc:/missing/x'' (Some 0) [] 1024 = Inr (Some 15, ''/abc:/missing/x'')"
    "wine_get_dos_file_name example_env (drop 5 ''/abc:/missing/x'') = None"
    by code_simp+
  note w4 = first_matching_pattern_wins[where tok = "''/abc:/missing/x''" and k = 5
      and buffer = "''/abc:/missing/x''" and ptr = "Some 0" and ?tok0.0 = "[]" and p = 15
      and env = example_env and dest = "''f''" and out = "[]" and fs = "map_of [(''f'', [])]"]
  have 4: "remapLoop example_env CMD ''/abc:/missing/x'' (Some 0) [] ''f'' []
        (map_of [(''f'', [])]) =
      Exited 4 (fflush ''f'' [] (map_of [(''f'', [])]))"
    using w4 tri by blast
  have 5: "cmdfileremap_remapLoop example_env ''/abc:/missing/x'' (Some 0) [] ''f'' []
        (map_of [(''f'', [])]) =
      Crashed UncaughtException"
    using w4 tri by blast
  have jus: "regex_match ''/missing/x'' JUS_PATH" "\<not> regex_match ''/missing/x'' ONE_PATH"
    "\<not> regex_match ''/missing/x'' DUO_PATH" "\<not> regex_match ''/missing/x'' TRI_PATH"
    "cmaketricks_token ''/missing/x'' (Some 0) [] TOKEN_SIZE = Inr (Some 10, ''/missing/x'')"
    "wine_get_dos_file_name example_env (drop 0 ''/missing/x'') = None"
    by code_simp+
  have 6: "remapLoop example_env CMD ''/missing/x'' (Some 0) [] ''f'' [] (map_of [(''f'', [])]) =
      Exited 4 (fflush ''f'' [] (map_of [(''f'', [])]))"
    using first_matching_pattern_wins[where tok = "''/missing/x''" and k = 0
      and buffer = "''/missing/x''" and ptr = "Some 0" and ?tok0.0 = "[]" and p = 10
      and env = example_env and dest = "''f''" and out = "[]" and fs = "map_of [(''f'', [])]"]
      jus
    by blast
  have dash: "regex_match ''-I/a/b'' ONE_PATH"
    "cmaketricks_token ''-I/a/b'' (Some 0) [] TOKEN_SIZE = Inr (Some 6, ''-I/a/b'')"
    "wine_get_dos_file_name example_env (drop 2 ''-I/a/b'') = Some ''Z:/a/b''"
    "stream_after (remapLoop example_env CMD ''-I/a/b'' (Some 0) [] ''f'' [] (map_of [(''f'', [])]))
       ''f'' = Some (quoted ''-IZ:/a/b'')"
    by code_simp+
  have 7: "prefix ([] @ quoted (take 2 ''-I/a/b'' @
        WideCharToMultiByte example_env ''Z:/a/b'' TOKEN_SIZE)) (quoted ''-IZ:/a/b'')"
    using first_matching_pattern_wins[where tok = "''-I/a/b''" and k = 2
      and buffer = "''-I/a/b''" and ptr = "Some 0" and ?tok0.0 = "[]" and p = 6
      and env = example_env and dest = "''f''" and out = "[]" and fs = "map_of [(''f'', [])]"]
      dash
    by blast
  from one(1,2) 1 2 duo(1,2) 3 tri(1,2) 4 5 6 dash(1,4) 7 show ?thesis by blast
qed

section \<open>Tokens that do not fit the token buffer (claim C8)\<close>

text \<open>
  C8. Where \<open>token\<close> consumes a run (the cursor, behind the blanks, is not at the end
  of the buffer nor, in cmaketricks, at a carriage return or line feed), it fails its
  assertion if the length of the run is at least the capacity minus one, and otherwise
  returns the whole run as the token and the cursor behind the run. The capacity minus
  one is computed in the type \<open>int\<close>: it is the number one less for every capacity but
  the least \<open>int\<close>, where the subtraction overflows and, in the compiled program,
  yields the greatest \<open>int\<close>. Both programs pass the capacity 1024. A failed assertion
  ends the process at the call of \<open>token\<close>, before the loop body does anything for the
  token: in the condition of either loop, and at the call for the target of an include
  directive.
\<close>

theorem token_overflow_fatal:
  assumes s: "s = skip_blanks buffer p0"
    and consumed: "char_at buffer s \<noteq> NUL"
    and start: "start = (if char_at buffer s = DQUOTE then s + 1 else s)"
    and run: "run = (if char_at buffer s = DQUOTE then run_until [DQUOTE, NUL] buffer (s + 1)
                     else run_until [SP, HT, NUL, CR, LF] buffer s)"
    and run': "run' = (if char_at buffer s = DQUOTE then run_until [DQUOTE, NUL] buffer (s + 1)
                      else run_until [SP, HT, NUL] buffer s)"
  shows "(char_at buffer s \<noteq> CR \<and> char_at buffer s \<noteq> LF \<longrightarrow>
            cmaketricks_token buffer (Some p0) tok cap =
              (if sint (cap - 1) \<le> int (length run) then Inl AssertionFailed
               else Inr (Some (start + length run), run))) \<and>
         cmdfileremap_token buffer (Some p0) tok cap =
           (if sint (cap - 1) \<le> int (length run') then Inl AssertionFailed
            else Inr (Some (start + length run'), run')) \<and>
         sint (cap - 1) = (if cap = - (2 ^ 31) then 2 ^ 31 - 1 else sint cap - 1) \<and>
         sint (TOKEN_SIZE - 1) = 1023 \<and>
         (cmaketricks_token buffer ptr tok TOKEN_SIZE = Inl AssertionFailed \<longrightarrow>
            remapLoop env pMode buffer ptr tok dest out fs = Crashed AssertionFailed) \<and>
         (cmaketricks_token buffer ptr tok TOKEN_SIZE = Inr (Some p, ''#include'') \<and>
          cmaketricks_token buffer (Some p) ''#include'' TOKEN_SIZE = Inl AssertionFailed \<longrightarrow>
            remapLoop env PCH buffer ptr tok dest out fs = Crashed AssertionFailed) \<and>
         (cmdfileremap_token buffer ptr tok 1024 = Inl AssertionFailed \<longrightarrow>
            cmdfileremap_remapLoop env buffer ptr tok dest out fs = Crashed AssertionFailed)"
proof (intro conjI impI)
  assume "char_at buffer s \<noteq> CR \<and> char_at buffer s \<noteq> LF"
  then show "cmaketricks_token buffer (Some p0) tok cap =
      (if sint (cap - 1) \<le> int (length run) then Inl AssertionFailed
       else Inr (Some (start + length run), run))"
    using cmaketricks_token_run[OF s _ _ consumed start run, of tok cap] by auto
next
  show "cmdfileremap_token buffer (Some p0) tok cap =
      (if sint (cap - 1) \<le> int (length run') then Inl AssertionFailed
       else Inr (Some (start + length run'), run'))"
    using cmdfileremap_token_run[OF s consumed start run', of tok cap] by auto
next
  show "sint (cap - 1) = (if cap = - (2 ^ 31) then 2 ^ 31 - 1 else sint cap - 1)"
    by (rule sint_pred)
next
  show "sint (TOKEN_SIZE - 1) = 1023"
    by (simp add: TOKEN_SIZE_def)
next
  assume "cmaketricks_token buffer ptr tok TOKEN_SIZE = Inl AssertionFailed"
  then show "remapLoop env pMode buffer ptr tok dest out fs = Crashed AssertionFailed"
    by (rule remapLoop_token_fatal)
next
  assume "cmaketricks_token buffer ptr tok TOKEN_SIZE = Inr (Some p, ''#include'') \<and>
      cmaketricks_token buffer (Some p) ''#include'' TOKEN_SIZE = Inl AssertionFailed"
  then show "remapLoop env PCH buffer ptr tok dest out fs = Crashed AssertionFailed"
    by (intro remapLoop_target_fatal) auto
next
  assume "cmdfileremap_token buffer ptr tok 1024 = Inl AssertionFailed"
  then show "cmdfileremap_remapLoop env buffer ptr tok dest out fs = Crashed AssertionFailed"
    by (rule cmdfileremap_remapLoop_token_fatal)
qed

theorem token_overflow_fatal_witness:
  "cmaketricks_token ''abcdef'' (Some 0) [] 7 = Inl AssertionFailed \<and>
   cmaketricks_token ''abcdef'' (Some 0) [] 8 = Inr (Some 6, ''abcdef'') \<and>
   cmdfileremap_token ''abcdef'' (Some 0) [] 7 = Inl AssertionFailed \<and>
   cmdfileremap_token ''abcdef'' (Some 0) [] 8 = Inr (Some 6, ''abcdef'') \<and>
   cmaketricks_token ''abcdef'' (Some 0) [] (- (2 ^ 31)) = Inr (Some 6, ''abcdef'') \<and>
   remapLoop example_env CMD long_token (Some 0) [] ''f'' [] (map_of [(''f'', [])]) =
     Crashed AssertionFailed \<and>
   remapLoop example_env PCH include_long_token (Some 0) [] ''h'' [] (map_of [(''h'', [])]) =
     Crashed AssertionFailed \<and>
   cmdfileremap_remapLoop example_env long_token (Some 0) [] ''f'' [] (map_of [(''f'', [])]) =
     Crashed AssertionFailed"
proof -
  have s: "0 = skip_blanks ''abcdef'' 0"
    by code_simp
  have c: "char_at ''abcdef'' 0 \<noteq> NUL" "char_at ''abcdef'' 0 \<noteq> CR \<and> char_at ''abcdef'' 0 \<noteq> LF"
    "char_at ''abcdef'' 0 \<noteq> DQUOTE"
    by code_simp+
  have r: "run_until [SP, HT, NUL, CR, LF] ''abcdef'' 0 = ''abcdef''"
    "run_until [SP, HT, NUL] ''abcdef'' 0 = ''abcdef''"
    by code_simp+
  note short = token_overflow_fatal[OF s c(1) refl refl refl]
  have 1: "cmaketricks_token ''abcdef'' (Some 0) [] 7 = Inl AssertionFailed"
    using short[where cap = 7 and tok = "[]"] c by (simp add: r)
  have 2: "cmaketricks_token ''abcdef'' (Some 0) [] 8 = Inr (Some 6, ''abcdef'')"
    using short[where cap = 8 and tok = "[]"] c by (simp add: r)
  have 3: "cmdfileremap_token ''abcdef'' (Some 0) [] 7 = Inl AssertionFailed"
    using short[where cap = 7 and tok = "[]"] c by (simp add: r)
  have 4: "cmdfileremap_token ''abcdef'' (Some 0) [] 8 = Inr (Some 6, ''abcdef'')"
    using short[where cap = 8 and tok = "[]"] c by (simp add: r)
  have 5: "cmaketricks_token ''abcdef'' (Some 0) [] (- (2 ^ 31)) = Inr (Some 6, ''abcdef'')"
    using short[where cap = "- (2 ^ 31)" and tok = "[]"] c by (simp add: r)
  note long = token_overflow_fatal[OF long_token_start[THEN conjunct1]
      long_token_start[THEN conjunct2] refl refl refl]
  note incl = token_overflow_fatal[OF include_long_token_start[THEN conjunct1]
      include_long_token_start[THEN conjunct2] refl refl refl]
  have 6: "remapLoop example_env CMD long_token (Some 0) [] ''f'' [] (map_of [(''f'', [])]) =
      Crashed AssertionFailed"
    using long[where ptr = "Some 0" and tok = "[]" and env = example_env and pMode = CMD
        and dest = "''f''" and out = "[]" and fs = "map_of [(''f'', [])]"]
      long_token_overflows[of "[]"]
    by blast
  have 7: "remapLoop example_env PCH include_long_token (Some 0) [] ''h'' []
        (map_of [(''h'', [])]) =
      Crashed AssertionFailed"
    using incl[where ptr = "Some 0" and tok = "[]" and p = 8 and env = example_env
        and dest = "''h''" and out = "[]" and fs = "map_of [(''h'', [])]"]
      include_long_token_overflows
    by blast
  have 8: "cmdfileremap_remapLoop example_env long_token (Some 0) [] ''f'' []
        (map_of [(''f'', [])]) =
      Crashed AssertionFailed"
    using long[where ptr = "Some 0" and tok = "[]" and env = example_env
        and dest = "''f''" and out = "[]" and fs = "map_of [(''f'', [])]"]
      long_token_overflows[of "[]"]
    by blast
  from 1 2 3 4 5 6 7 8 show ?thesis by blast
qed

section \<open>An include directive at the end of the file (claim C9)\<close>



section \<open>Tokens that start with a space (claim C10)\<close>

text \<open>
  C10 as claimed: in cmaketricks every quoted token whose text starts with a space is
  dropped by the loop, in both modes, and no path in it is translated; only a quoted
  token can start with a space. The target of an include directive is an exception:
  \<open>remapFile\<close> reads it inside the branch of \<open>#include\<close>, behind the test for a
  leading space, translates it and writes it. On a header holding \<open>#include\<close> and the
  quoted target \<open> /usr/a.h\<close>:
\<close>

theorem include_target_with_leading_space_kept:
  "cmaketricks_token include_spaced_target (Some 8) ''#include'' TOKEN_SIZE =
     Inr (Some 19, '' /usr/a.h'') \<and>
   status_of (remapFile example_env ''h'' PCH (map_of [(''h'', include_spaced_target)])) =
     Success \<and>
   file_after (remapFile example_env ''h'' PCH (map_of [(''h'', include_spaced_target)])) ''h'' =
     Some (Some (''#include'' @ [SP, DQUOTE] @ ''Z: /usr/a.h'' @ [DQUOTE, SP]))"
  by code_simp

text \<open>
  C10 as amended: a token that the condition of the loop reads and that starts with a
  space is dropped, in both modes: nothing is written, nothing is translated, and the
  loop goes on behind it, so that the loop returns the stream as it was if no token
  follows; such a token comes from the branch of \<open>token\<close> for quoted runs only.
\<close>

theorem leading_space_token_dropped:
  assumes tok: "cmaketricks_token buffer (Some p0) tok0 TOKEN_SIZE = Inr (Some p, tok)"
    and sp: "char_at tok 0 = SP"
  shows "remapLoop env pMode buffer (Some p0) tok0 dest out fs =
           remapLoop env pMode buffer (Some p) tok dest out fs \<and>
         char_at buffer (skip_blanks buffer p0) = DQUOTE \<and>
         (\<forall>t. cmaketricks_token buffer (Some p) tok TOKEN_SIZE = Inr (None, t) \<longrightarrow>
            remapLoop env pMode buffer (Some p0) tok0 dest out fs = Returned (out, fs))"
proof (intro conjI allI impI)
  show step: "remapLoop env pMode buffer (Some p0) tok0 dest out fs =
      remapLoop env pMode buffer (Some p) tok dest out fs"
    using tok sp by (subst remapLoop.simps) simp
  show "char_at buffer (skip_blanks buffer p0) = DQUOTE"
    using tok sp by (rule leading_space_is_quoted)
  fix t
  assume "cmaketricks_token buffer (Some p) tok TOKEN_SIZE = Inr (None, t)"
  then have "remapLoop env pMode buffer (Some p) tok dest out fs = Returned (out, fs)"
    by (subst remapLoop.simps) simp
  with step show "remapLoop env pMode buffer (Some p0) tok0 dest out fs = Returned (out, fs)"
    by simp
qed

theorem leading_space_token_dropped_witness:
  "remapLoop example_env CMD leading_space_example (Some 0) [] ''f'' [] (map_of [(''f'', [])]) =
     remapLoop example_env CMD leading_space_example (Some 8) '' /usr/x'' ''f'' []
       (map_of [(''f'', [])]) \<and>
   char_at leading_space_example (skip_blanks leading_space_example 0) = DQUOTE \<and>
   remapLoop example_env CMD unterminated_example (Some 0) [] ''f'' [] (map_of [(''f'', [])]) =
     Returned ([], map_of [(''f'', [])]) \<and>
   remapLoop example_env PCH unterminated_example (Some 0) [] ''f'' [] (map_of [(''f'', [])]) =
     Returned ([], map_of [(''f'', [])])"
proof -
  have tok: "cmaketricks_token leading_space_example (Some 0) [] TOKEN_SIZE =
      Inr (Some 8, '' /usr/x'')"
    by code_simp
  have sp: "char_at '' /usr/x'' 0 = SP"
    by code_simp
  have tok': "cmaketricks_token unterminated_example (Some 0) [] TOKEN_SIZE =
      Inr (Some 8, '' /usr/x'')"
    by code_simp
  have last: "cmaketricks_token unterminated_example (Some 8) '' /usr/x'' TOKEN_SIZE =
      Inr (None, '' /usr/x'')"
    by code_simp
  from leading_space_token_dropped[OF tok sp, where env = example_env and pMode = CMD
      and dest = "''f''" and out = "[]" and fs = "map_of [(''f'', [])]"]
    leading_space_token_dropped[OF tok' sp, where env = example_env and pMode = CMD
      and dest = "''f''" and out = "[]" and fs = "map_of [(''f'', [])]"]
    leading_space_token_dropped[OF tok' sp, where env = example_env and pMode = PCH
      and dest = "''f''" and out = "[]" and fs = "map_of [(''f'', [])]"]
    last
  show ?thesis by blast
qed

end
